theory Spec2Isabelle
  imports Complex_Main "HOL-Library.Word"
begin

unbundle bit_operations_syntax

section \<open>C types of ProcessBridge.h\<close>

text \<open>
  \<open>int\<close> and \<open>pid_t\<close> are 32-bit two's complement integers: a \<open>32 word\<close>, read with
  \<open>sint\<close> wherever the C code compares or tests the sign. \<open>count++\<close> is \<open>count + 1\<close> on
  the word.
\<close>

type_synonym c_int = "32 word"
type_synonym pid_t = "32 word"
type_synonym c_long = "64 word"
type_synonym byte = "8 word"

text \<open>The enum \<open>BridgeErrorCode\<close>, as the \<open>int\<close> the functions return.\<close>

definition BRIDGE_SUCCESS :: c_int where
  "BRIDGE_SUCCESS = 0"

definition BRIDGE_ERROR_NULL_POINTER :: c_int where
  "BRIDGE_ERROR_NULL_POINTER = - 1"

definition BRIDGE_ERROR_INVALID_PARAMETER :: c_int where
  "BRIDGE_ERROR_INVALID_PARAMETER = - 2"

definition BRIDGE_ERROR_MEMORY_ALLOCATION :: c_int where
  "BRIDGE_ERROR_MEMORY_ALLOCATION = - 3"

definition BRIDGE_ERROR_SYSTEM_CALL :: c_int where
  "BRIDGE_ERROR_SYSTEM_CALL = - 4"

definition BRIDGE_ERROR_FILE_ACCESS :: c_int where
  "BRIDGE_ERROR_FILE_ACCESS = - 5"

lemmas BridgeErrorCode_defs =
  BRIDGE_SUCCESS_def BRIDGE_ERROR_NULL_POINTER_def BRIDGE_ERROR_INVALID_PARAMETER_def
  BRIDGE_ERROR_MEMORY_ALLOCATION_def BRIDGE_ERROR_SYSTEM_CALL_def BRIDGE_ERROR_FILE_ACCESS_def

text \<open>
  \<open>SystemProcessInfo\<close>. The two \<open>char[PROC_PIDPATHINFO_MAXSIZE]\<close> arrays hold
  NUL-terminated strings; the record keeps the string in front of the terminator. The
  fields \<open>pid\<close>, \<open>name\<close> and \<open>path\<close> carry the prefix \<open>info_\<close>, the name of the pointer
  through which the code writes them.
\<close>

record SystemProcessInfo =
  info_pid :: pid_t
  info_name :: string
  info_path :: string
  windowCount :: c_int
  suspiciousWindowCount :: c_int
  screenEvasionCount :: c_int
  elevatedLayerCount :: c_int

record WindowProperties =
  wp_windowCount :: c_int
  sharingStateDisabled :: c_int
  elevatedLayers :: c_int
  suspiciousPatterns :: c_int

section \<open>The window server\<close>

text \<open>
  A \<open>CGFloat\<close> is an IEEE double: a finite value, an infinity or a NaN. The code only
  compares such values with integer constants, so a finite double is kept as the real
  number it denotes. Every comparison with a NaN is false.
\<close>

datatype CGFloat = Finite real | PlusInfinity | MinusInfinity | NaN

fun fl_less :: "CGFloat \<Rightarrow> CGFloat \<Rightarrow> bool" where
  "fl_less NaN _ = False"
| "fl_less _ NaN = False"
| "fl_less (Finite a) (Finite b) = (a < b)"
| "fl_less (Finite a) PlusInfinity = True"
| "fl_less (Finite a) MinusInfinity = False"
| "fl_less MinusInfinity MinusInfinity = False"
| "fl_less MinusInfinity _ = True"
| "fl_less PlusInfinity _ = False"

abbreviation fl_greater :: "CGFloat \<Rightarrow> CGFloat \<Rightarrow> bool" where
  "fl_greater a b \<equiv> fl_less b a"

record CGRect =
  origin_x :: CGFloat
  origin_y :: CGFloat
  size_width :: CGFloat
  size_height :: CGFloat

text \<open>
  One entry of the array that \<open>CGWindowListCopyWindowInfo\<close> returns: a dictionary, of
  which the code reads four keys. A key that \<open>CFDictionaryGetValue\<close> does not find is
  \<open>None\<close>. The numbers are kept as the \<open>int\<close> that \<open>CFNumberGetValue\<close> with
  \<open>kCFNumberIntType\<close> stores, the bounds as the rectangle that
  \<open>CGRectMakeWithDictionaryRepresentation\<close> fills in.
\<close>

record Window =
  kCGWindowOwnerPID :: "c_int option"
  kCGWindowBounds :: "CGRect option"
  kCGWindowSharingState :: "c_int option"
  kCGWindowLayer :: "c_int option"

datatype CGWindowListOption = kCGWindowListOptionAll | kCGWindowListOptionOnScreenOnly

text \<open>
  The window server as the bridge sees it: the answer of \<open>CGWindowListCopyWindowInfo\<close>
  for each list option, \<open>None\<close> when it returns \<open>NULL\<close>.
\<close>

type_synonym WindowServer = "CGWindowListOption \<Rightarrow> Window list option"

section \<open>Window property detection functions\<close>

subsection \<open>getWindowCount\<close>

fun getWindowCount_loop :: "pid_t \<Rightarrow> Window list \<Rightarrow> c_int \<Rightarrow> c_int" where
  "getWindowCount_loop pid [] count = count"
| "getWindowCount_loop pid (window # rest) count =
     (case kCGWindowOwnerPID window of
        None \<Rightarrow> getWindowCount_loop pid rest count
      | Some windowOwnerPID \<Rightarrow>
          if windowOwnerPID = pid then getWindowCount_loop pid rest (count + 1)
          else getWindowCount_loop pid rest count)"

definition getWindowCount :: "WindowServer \<Rightarrow> pid_t \<Rightarrow> c_int" where
  "getWindowCount CGWindowListCopyWindowInfo pid =
     (if sint pid \<le> 0 then 0
      else case CGWindowListCopyWindowInfo kCGWindowListOptionOnScreenOnly of
        None \<Rightarrow> 0
      | Some windowList \<Rightarrow> getWindowCount_loop pid windowList 0)"

subsection \<open>detectScreenEvasion\<close>

text \<open>The geometry test of the loop body, on the rectangle read from the bounds.\<close>

definition suspicious_rect :: "CGRect \<Rightarrow> bool" where
  "suspicious_rect rect \<longleftrightarrow>
     fl_less (origin_x rect) (Finite (- 1000)) \<or> fl_less (origin_y rect) (Finite (- 1000)) \<or>
     fl_less (size_width rect) (Finite 1) \<or> fl_less (size_height rect) (Finite 1) \<or>
     fl_greater (origin_x rect) (Finite 10000) \<or> fl_greater (origin_y rect) (Finite 10000)"

text \<open>The body of the loop for a window whose owner is \<open>pid\<close>: two independent tests.\<close>

definition evasion_checks :: "Window \<Rightarrow> c_int \<Rightarrow> c_int" where
  "evasion_checks window suspiciousCount =
     (let suspiciousCount =
            (case kCGWindowBounds window of
               None \<Rightarrow> suspiciousCount
             | Some rect \<Rightarrow>
                 if suspicious_rect rect then suspiciousCount + 1 else suspiciousCount)
      in case kCGWindowSharingState window of
           None \<Rightarrow> suspiciousCount
         | Some sharing \<Rightarrow> if sharing = 0 then suspiciousCount + 1 else suspiciousCount)"

fun detectScreenEvasion_loop :: "pid_t \<Rightarrow> Window list \<Rightarrow> c_int \<Rightarrow> c_int" where
  "detectScreenEvasion_loop pid [] suspiciousCount = suspiciousCount"
| "detectScreenEvasion_loop pid (window # rest) suspiciousCount =
     (case kCGWindowOwnerPID window of
        None \<Rightarrow> detectScreenEvasion_loop pid rest suspiciousCount
      | Some windowOwnerPID \<Rightarrow>
          if windowOwnerPID = pid
          then detectScreenEvasion_loop pid rest (evasion_checks window suspiciousCount)
          else detectScreenEvasion_loop pid rest suspiciousCount)"

definition detectScreenEvasion :: "WindowServer \<Rightarrow> pid_t \<Rightarrow> c_int" where
  "detectScreenEvasion CGWindowListCopyWindowInfo pid =
     (if sint pid \<le> 0 then 0
      else case CGWindowListCopyWindowInfo kCGWindowListOptionAll of
        None \<Rightarrow> 0
      | Some windowList \<Rightarrow> detectScreenEvasion_loop pid windowList 0)"

subsection \<open>detectElevatedLayers\<close>

fun detectElevatedLayers_loop :: "pid_t \<Rightarrow> Window list \<Rightarrow> c_int \<Rightarrow> c_int" where
  "detectElevatedLayers_loop pid [] elevatedCount = elevatedCount"
| "detectElevatedLayers_loop pid (window # rest) elevatedCount =
     (case kCGWindowOwnerPID window of
        None \<Rightarrow> detectElevatedLayers_loop pid rest elevatedCount
      | Some windowOwnerPID \<Rightarrow>
          if windowOwnerPID = pid
          then (case kCGWindowLayer window of
                  None \<Rightarrow> detectElevatedLayers_loop pid rest elevatedCount
                | Some layerValue \<Rightarrow>
                    if 2 < sint layerValue
                    then detectElevatedLayers_loop pid rest (elevatedCount + 1)
                    else detectElevatedLayers_loop pid rest elevatedCount)
          else detectElevatedLayers_loop pid rest elevatedCount)"

definition detectElevatedLayers :: "WindowServer \<Rightarrow> pid_t \<Rightarrow> c_int" where
  "detectElevatedLayers CGWindowListCopyWindowInfo pid =
     (if sint pid \<le> 0 then 0
      else case CGWindowListCopyWindowInfo kCGWindowListOptionAll of
        None \<Rightarrow> 0
      | Some windowList \<Rightarrow> detectElevatedLayers_loop pid windowList 0)"

subsection \<open>getWindowProperties\<close>

fun sharingStateDisabled_loop :: "pid_t \<Rightarrow> Window list \<Rightarrow> WindowProperties \<Rightarrow> WindowProperties"
  where
  "sharingStateDisabled_loop pid [] properties = properties"
| "sharingStateDisabled_loop pid (window # rest) properties =
     (case kCGWindowOwnerPID window of
        None \<Rightarrow> sharingStateDisabled_loop pid rest properties
      | Some windowOwnerPID \<Rightarrow>
          if windowOwnerPID = pid
          then (case kCGWindowSharingState window of
                  None \<Rightarrow> sharingStateDisabled_loop pid rest properties
                | Some sharing \<Rightarrow>
                    if sharing = 0
                    then sharingStateDisabled_loop pid rest
                           (properties\<lparr>sharingStateDisabled := sharingStateDisabled properties + 1\<rparr>)
                    else sharingStateDisabled_loop pid rest properties)
          else sharingStateDisabled_loop pid rest properties)"

text \<open>
  The out-parameter \<open>properties\<close> is \<open>None\<close> for a \<open>NULL\<close> pointer and otherwise the
  struct it points to; the function returns its status and the struct after the call.
\<close>

definition getWindowProperties ::
  "WindowServer \<Rightarrow> pid_t \<Rightarrow> WindowProperties option \<Rightarrow> c_int \<times> WindowProperties option" where
  "getWindowProperties CGWindowListCopyWindowInfo pid properties =
     (case properties of
        None \<Rightarrow> (BRIDGE_ERROR_NULL_POINTER, None)
      | Some p \<Rightarrow>
          if sint pid \<le> 0 then (BRIDGE_ERROR_INVALID_PARAMETER, Some p)
          else
            let p = p\<lparr>wp_windowCount := getWindowCount CGWindowListCopyWindowInfo pid\<rparr>;
                p = p\<lparr>elevatedLayers := detectElevatedLayers CGWindowListCopyWindowInfo pid\<rparr>;
                p = p\<lparr>suspiciousPatterns := detectScreenEvasion CGWindowListCopyWindowInfo pid\<rparr>;
                p = p\<lparr>sharingStateDisabled := 0\<rparr>
            in case CGWindowListCopyWindowInfo kCGWindowListOptionAll of
                 None \<Rightarrow> (BRIDGE_ERROR_SYSTEM_CALL, Some p)
               | Some windowList \<Rightarrow>
                   (BRIDGE_SUCCESS, Some (sharingStateDisabled_loop pid windowList p)))"

section \<open>Process enumeration\<close>

text \<open>
  \<open>PROC_PIDPATHINFO_MAXSIZE\<close> comes from \<open><sys/proc_info.h>\<close>, where it is
  \<open>4 * MAXPATHLEN\<close>; \<open>size_t\<close> values are natural numbers.
\<close>

definition PROC_PIDPATHINFO_MAXSIZE :: nat where
  "PROC_PIDPATHINFO_MAXSIZE = 4096"

definition UINT32_MAX :: nat where
  "UINT32_MAX = 4294967295"

text \<open>Of \<open>struct kinfo_proc\<close> and \<open>struct proc_bsdinfo\<close> the code reads one field each.\<close>

record kinfo_proc =
  p_pid :: pid_t

record proc_bsdinfo =
  pbi_name :: string

text \<open>
  The operating system as one call of the bridge sees it:
  \<^item> \<open>pthread_mutex_lock\<close>: the value the lock call returns;
  \<^item> \<open>sysctl_size\<close>: the size the first \<open>sysctl\<close> reports, \<open>None\<close> when it fails;
  \<^item> \<open>sysctl_proc_list\<close>: the entries the second \<open>sysctl\<close> stores, \<open>None\<close> when it fails;
    the size it reports is that of these entries, so \<open>size / sizeof(struct kinfo_proc)\<close>
    is their number;
  \<^item> \<open>malloc_proc_list\<close>, \<open>malloc_processes\<close>: whether the two allocations succeed;
  \<^item> \<open>proc_pidinfo\<close>: the \<open>proc_bsdinfo\<close> of a pid, \<open>None\<close> when the call returns \<open>\<le> 0\<close>;
  \<^item> \<open>proc_pidpath\<close>: the path of a pid for a buffer size, \<open>None\<close> when the call
    returns \<open>\<le> 0\<close>;
  \<^item> \<open>window_server\<close>: the answers of \<open>CGWindowListCopyWindowInfo\<close>.
\<close>

record System =
  pthread_mutex_lock :: c_int
  sysctl_size :: "nat option"
  malloc_proc_list :: bool
  sysctl_proc_list :: "kinfo_proc list option"
  malloc_processes :: bool
  proc_pidinfo :: "pid_t \<Rightarrow> proc_bsdinfo option"
  proc_pidpath :: "pid_t \<Rightarrow> nat \<Rightarrow> string option"
  window_server :: WindowServer

text \<open>
  A \<open>char *\<close> buffer argument is \<open>None\<close> for a \<open>NULL\<close> pointer and otherwise the string
  the buffer holds; \<open>c_string\<close> reads the buffer of a pointer known to be valid.
\<close>

definition c_string :: "string option \<Rightarrow> string" where
  "c_string buffer = (case buffer of None \<Rightarrow> [] | Some s \<Rightarrow> s)"

subsection \<open>getProcessName and getProcessPath\<close>

text \<open>
  \<open>strncpy(name, proc_info.pbi_name, nameSize - 1)\<close> followed by the terminator at
  \<open>nameSize - 1\<close> leaves the first \<open>nameSize - 1\<close> characters of the name.
\<close>

definition getProcessName :: "System \<Rightarrow> pid_t \<Rightarrow> string option \<Rightarrow> nat \<Rightarrow> c_int \<times> string option"
  where
  "getProcessName sys pid name nameSize =
     (if name = None \<or> nameSize = 0 then (BRIDGE_ERROR_NULL_POINTER, name)
      else if sint pid \<le> 0 then (BRIDGE_ERROR_INVALID_PARAMETER, name)
      else case proc_pidinfo sys pid of
             None \<Rightarrow> (BRIDGE_ERROR_SYSTEM_CALL, name)
           | Some proc_info \<Rightarrow>
               (BRIDGE_SUCCESS, Some (take (nameSize - 1) (pbi_name proc_info))))"

definition getProcessPath :: "System \<Rightarrow> pid_t \<Rightarrow> string option \<Rightarrow> nat \<Rightarrow> c_int \<times> string option"
  where
  "getProcessPath sys pid path pathSize =
     (if path = None \<or> pathSize = 0 then (BRIDGE_ERROR_NULL_POINTER, path)
      else if sint pid \<le> 0 then (BRIDGE_ERROR_INVALID_PARAMETER, path)
      else if pathSize > UINT32_MAX then (BRIDGE_ERROR_INVALID_PARAMETER, path)
      else case proc_pidpath sys pid pathSize of
             None \<Rightarrow> (BRIDGE_ERROR_SYSTEM_CALL, Some [])
           | Some p \<Rightarrow> (BRIDGE_SUCCESS, Some p))"

subsection \<open>getAllProcesses\<close>

text \<open>
  The body of the loop for an entry with a positive pid: the record written through
  \<open>info\<close>, and the status of \<open>getProcessName\<close>, which decides whether \<open>valid_count\<close>
  moves on.
\<close>

definition fill_info :: "System \<Rightarrow> pid_t \<Rightarrow> c_int \<times> SystemProcessInfo" where
  "fill_info sys pid =
     (let info = \<lparr>info_pid = pid, info_name = [], info_path = [], windowCount = 0,
                  suspiciousWindowCount = 0, screenEvasionCount = 0, elevatedLayerCount = 0\<rparr>;
          named = getProcessName sys pid (Some (info_name info)) PROC_PIDPATHINFO_MAXSIZE;
          info = info\<lparr>info_name := c_string (snd named)\<rparr>
      in if fst named = BRIDGE_SUCCESS
         then
           let pathed = getProcessPath sys pid (Some (info_path info)) PROC_PIDPATHINFO_MAXSIZE;
               info = info\<lparr>info_path := c_string (snd pathed)\<rparr>;
               info = info\<lparr>windowCount := getWindowCount (window_server sys) pid\<rparr>;
               info = info\<lparr>screenEvasionCount := detectScreenEvasion (window_server sys) pid\<rparr>;
               info = info\<lparr>elevatedLayerCount := detectElevatedLayers (window_server sys) pid\<rparr>;
               info = info\<lparr>suspiciousWindowCount :=
                        (if 0 < sint (screenEvasionCount info) \<or> 0 < sint (elevatedLayerCount info)
                         then 1 else 0)\<rparr>
           in (fst named, info)
         else (fst named, info))"

text \<open>
  The array \<open>*processes\<close> has \<open>proc_count\<close> slots; a slot that was never written is
  \<open>None\<close>. Every entry with a positive pid is written to the slot at \<open>valid_count\<close>, and
  \<open>valid_count\<close> moves on only when the name was resolved, so the slot of a process
  without a name is written again by the next entry.
\<close>

fun getAllProcesses_loop ::
  "System \<Rightarrow> kinfo_proc list \<Rightarrow> SystemProcessInfo option list \<Rightarrow> c_int
     \<Rightarrow> SystemProcessInfo option list \<times> c_int" where
  "getAllProcesses_loop sys [] processes valid_count = (processes, valid_count)"
| "getAllProcesses_loop sys (kp # proc_list) processes valid_count =
     (let pid = p_pid kp
      in if sint pid \<le> 0 then getAllProcesses_loop sys proc_list processes valid_count
         else
           let filled = fill_info sys pid;
               processes = processes[nat (sint valid_count) := Some (snd filled)]
           in if fst filled = BRIDGE_SUCCESS
              then getAllProcesses_loop sys proc_list processes (valid_count + 1)
              else getAllProcesses_loop sys proc_list processes valid_count)"

text \<open>
  The entries the loop visits: \<open>proc_count = (int)(size / sizeof(struct kinfo_proc))\<close>
  of them.
\<close>

definition proc_count_of :: "kinfo_proc list \<Rightarrow> c_int" where
  "proc_count_of proc_list = word_of_nat (length proc_list)"

definition visited :: "kinfo_proc list \<Rightarrow> kinfo_proc list" where
  "visited proc_list = take (nat (sint (proc_count_of proc_list))) proc_list"

text \<open>
  \<open>processes_given\<close> says that the argument \<open>processes\<close> is not \<open>NULL\<close>. The result is
  the returned \<open>int\<close> and the array that \<open>*processes\<close> points to afterwards (empty when
  none was allocated).
\<close>

definition getAllProcesses :: "System \<Rightarrow> bool \<Rightarrow> c_int \<times> SystemProcessInfo option list" where
  "getAllProcesses sys processes_given =
     (if \<not> processes_given then (BRIDGE_ERROR_NULL_POINTER, [])
      else if pthread_mutex_lock sys \<noteq> 0 then (BRIDGE_ERROR_SYSTEM_CALL, [])
      else case sysctl_size sys of
        None \<Rightarrow> (BRIDGE_ERROR_SYSTEM_CALL, [])
      | Some size_needed \<Rightarrow>
          if size_needed = 0 then (BRIDGE_ERROR_INVALID_PARAMETER, [])
          else if \<not> malloc_proc_list sys then (BRIDGE_ERROR_MEMORY_ALLOCATION, [])
          else case sysctl_proc_list sys of
            None \<Rightarrow> (BRIDGE_ERROR_SYSTEM_CALL, [])
          | Some proc_list \<Rightarrow>
              let proc_count = proc_count_of proc_list
              in if sint proc_count \<le> 0 then (BRIDGE_ERROR_INVALID_PARAMETER, [])
                 else if \<not> malloc_processes sys then (BRIDGE_ERROR_MEMORY_ALLOCATION, [])
                 else
                   let looped = getAllProcesses_loop sys (visited proc_list)
                                  (replicate (nat (sint proc_count)) None) 0
                   in (snd looped, fst looped))"

text \<open>The collection handed to the caller: the first \<open>valid_count\<close> slots of the array.\<close>

definition returned_records :: "c_int \<times> SystemProcessInfo option list \<Rightarrow> SystemProcessInfo option list"
  where
  "returned_records result = take (nat (sint (fst result))) (snd result)"

section \<open>File hashing\<close>

subsection \<open>CommonCrypto's SHA-256\<close>

text \<open>
  \<open>CC_SHA256_Init\<close>, \<open>CC_SHA256_Update\<close> and \<open>CC_SHA256_Final\<close> belong to the operating
  system's CommonCrypto library. They are modelled by the algorithm they implement,
  SHA-256 as FIPS 180-4 defines it, on a context that holds the number of bytes taken so
  far, the eight words of the intermediate hash and the bytes of the unfinished block.
  Each of the three returns 1, as CommonCrypto's functions do.
\<close>

type_synonym CC_LONG = "32 word"

type_synonym sha_regs =
  "CC_LONG \<times> CC_LONG \<times> CC_LONG \<times> CC_LONG \<times> CC_LONG \<times> CC_LONG \<times> CC_LONG \<times> CC_LONG"

text \<open>The round constants, eight to a row, and the initial hash value.\<close>

definition K256 :: "CC_LONG list" where
  "K256 =
     [0x428a2f98, 0x71374491, 0xb5c0fbcf, 0xe9b5dba5, 0x3956c25b, 0x59f111f1, 0x923f82a4, 0xab1c5ed5] @
     [0xd807aa98, 0x12835b01, 0x243185be, 0x550c7dc3, 0x72be5d74, 0x80deb1fe, 0x9bdc06a7, 0xc19bf174] @
     [0xe49b69c1, 0xefbe4786, 0x0fc19dc6, 0x240ca1cc, 0x2de92c6f, 0x4a7484aa, 0x5cb0a9dc, 0x76f988da] @
     [0x983e5152, 0xa831c66d, 0xb00327c8, 0xbf597fc7, 0xc6e00bf3, 0xd5a79147, 0x06ca6351, 0x14292967] @
     [0x27b70a85, 0x2e1b2138, 0x4d2c6dfc, 0x53380d13, 0x650a7354, 0x766a0abb, 0x81c2c92e, 0x92722c85] @
     [0xa2bfe8a1, 0xa81a664b, 0xc24b8b70, 0xc76c51a3, 0xd192e819, 0xd6990624, 0xf40e3585, 0x106aa070] @
     [0x19a4c116, 0x1e376c08, 0x2748774c, 0x34b0bcb5, 0x391c0cb3, 0x4ed8aa4a, 0x5b9cca4f, 0x682e6ff3] @
     [0x748f82ee, 0x78a5636f, 0x84c87814, 0x8cc70208, 0x90befffa, 0xa4506ceb, 0xbef9a3f7, 0xc67178f2]"

definition H256 :: sha_regs where
  "H256 = (0x6a09e667, 0xbb67ae85, 0x3c6ef372, 0xa54ff53a,
           0x510e527f, 0x9b05688c, 0x1f83d9ab, 0x5be0cd19)"

definition rotr :: "nat \<Rightarrow> CC_LONG \<Rightarrow> CC_LONG" where
  "rotr n x = drop_bit n x OR push_bit (32 - n) x"

definition Ch :: "CC_LONG \<Rightarrow> CC_LONG \<Rightarrow> CC_LONG \<Rightarrow> CC_LONG" where
  "Ch x y z = (x AND y) XOR (NOT x AND z)"

definition Maj :: "CC_LONG \<Rightarrow> CC_LONG \<Rightarrow> CC_LONG \<Rightarrow> CC_LONG" where
  "Maj x y z = (x AND y) XOR (x AND z) XOR (y AND z)"

definition Sigma0 :: "CC_LONG \<Rightarrow> CC_LONG" where
  "Sigma0 x = rotr 2 x XOR rotr 13 x XOR rotr 22 x"

definition Sigma1 :: "CC_LONG \<Rightarrow> CC_LONG" where
  "Sigma1 x = rotr 6 x XOR rotr 11 x XOR rotr 25 x"

definition sigma0 :: "CC_LONG \<Rightarrow> CC_LONG" where
  "sigma0 x = rotr 7 x XOR rotr 18 x XOR drop_bit 3 x"

definition sigma1 :: "CC_LONG \<Rightarrow> CC_LONG" where
  "sigma1 x = rotr 17 x XOR rotr 19 x XOR drop_bit 10 x"

text \<open>Big-endian conversion between bytes and 32-bit words.\<close>

fun be_words :: "byte list \<Rightarrow> CC_LONG list" where
  "be_words (b0 # b1 # b2 # b3 # rest) =
     (push_bit 24 (ucast b0) OR push_bit 16 (ucast b1) OR push_bit 8 (ucast b2) OR ucast b3)
       # be_words rest"
| "be_words _ = []"

definition be_bytes :: "CC_LONG \<Rightarrow> byte list" where
  "be_bytes w = [ucast (drop_bit 24 w), ucast (drop_bit 16 w), ucast (drop_bit 8 w), ucast w]"

text \<open>
  The message schedule is kept as a window of sixteen words: round \<open>t\<close> uses the first
  word of the window and appends word \<open>t + 16\<close>.
\<close>

definition next_w :: "CC_LONG list \<Rightarrow> CC_LONG" where
  "next_w w = sigma1 (w ! 14) + w ! 9 + sigma0 (w ! 1) + w ! 0"

fun sha_round :: "sha_regs \<Rightarrow> CC_LONG \<Rightarrow> CC_LONG \<Rightarrow> sha_regs" where
  "sha_round (a, b, c, d, e, f, g, h) k w =
     (let t1 = h + Sigma1 e + Ch e f g + k + w;
          t2 = Sigma0 a + Maj a b c
      in (t1 + t2, a, b, c, d + t1, e, f, g))"

fun sha256_rounds :: "sha_regs \<Rightarrow> CC_LONG list \<Rightarrow> CC_LONG list \<Rightarrow> sha_regs" where
  "sha256_rounds r w [] = r"
| "sha256_rounds r w (k # ks) = sha256_rounds (sha_round r k (w ! 0)) (tl w @ [next_w w]) ks"

fun add_regs :: "sha_regs \<Rightarrow> sha_regs \<Rightarrow> sha_regs" where
  "add_regs (a, b, c, d, e, f, g, h) (a', b', c', d', e', f', g', h') =
     (a + a', b + b', c + c', d + d', e + e', f + f', g + g', h + h')"

definition sha256_compress :: "sha_regs \<Rightarrow> byte list \<Rightarrow> sha_regs" where
  "sha256_compress hs block = add_regs hs (sha256_rounds hs (be_words block) K256)"

text \<open>Every complete block of 64 bytes is compressed; fewer than 64 bytes stay behind.\<close>

function sha256_blocks :: "sha_regs \<Rightarrow> byte list \<Rightarrow> sha_regs \<times> byte list" where
  "sha256_blocks hs bs =
     (if length bs < 64 then (hs, bs)
      else sha256_blocks (sha256_compress hs (take 64 bs)) (drop 64 bs))"
  by pat_completeness auto
termination
  by (relation "measure (\<lambda>(hs, bs). length bs)") auto

declare sha256_blocks.simps [simp del]

record CC_SHA256_CTX =
  ctx_count :: nat
  ctx_hash :: sha_regs
  ctx_wbuf :: "byte list"

definition CC_SHA256_Init :: "c_int \<times> CC_SHA256_CTX" where
  "CC_SHA256_Init = (1, \<lparr>ctx_count = 0, ctx_hash = H256, ctx_wbuf = []\<rparr>)"

definition CC_SHA256_Update :: "CC_SHA256_CTX \<Rightarrow> byte list \<Rightarrow> c_int \<times> CC_SHA256_CTX" where
  "CC_SHA256_Update c data =
     (let blocks = sha256_blocks (ctx_hash c) (ctx_wbuf c @ data)
      in (1, \<lparr>ctx_count = ctx_count c + length data, ctx_hash = fst blocks,
              ctx_wbuf = snd blocks\<rparr>))"

text \<open>
  The padding: the byte \<open>0x80\<close>, zero bytes up to 56 modulo 64, and the length of the
  message in bits as a 64-bit big-endian number.
\<close>

definition sha256_pad :: "nat \<Rightarrow> byte list \<Rightarrow> byte list" where
  "sha256_pad n pending =
     pending @ [0x80] @ replicate ((119 - length pending) mod 64) 0
       @ be_bytes (word_of_nat ((n * 8) div 2 ^ 32)) @ be_bytes (word_of_nat (n * 8))"

fun list_of_regs :: "sha_regs \<Rightarrow> CC_LONG list" where
  "list_of_regs (a, b, c, d, e, f, g, h) = [a, b, c, d, e, f, g, h]"

definition CC_SHA256_Final :: "CC_SHA256_CTX \<Rightarrow> c_int \<times> byte list" where
  "CC_SHA256_Final c =
     (1, concat (map be_bytes
                  (list_of_regs
                     (fst (sha256_blocks (ctx_hash c) (sha256_pad (ctx_count c) (ctx_wbuf c)))))))"

definition CC_SHA256_DIGEST_LENGTH :: nat where
  "CC_SHA256_DIGEST_LENGTH = 32"

subsection \<open>Streams\<close>

text \<open>
  What \<open>fopen(filePath, "rb")\<close> hands out, as far as the code uses it:
  \<^item> \<open>stream_bytes\<close>: the bytes that \<open>fread\<close> delivers before it reports the end of the
    file or an error;
  \<^item> \<open>stream_error\<close>: whether that end is a read error, so that \<open>ferror\<close> holds after
    the loop;
  \<^item> \<open>fseek_end\<close>, \<open>ftell_end\<close>, \<open>fseek_set\<close>: what \<open>fseek(file, 0, SEEK_END)\<close>,
    \<open>ftell(file)\<close> and \<open>fseek(file, 0, SEEK_SET)\<close> return.
  A file system maps a path to its stream, \<open>None\<close> when \<open>fopen\<close> returns \<open>NULL\<close>.
\<close>

record FILE =
  stream_bytes :: "byte list"
  stream_error :: bool
  fseek_end :: c_int
  ftell_end :: c_long
  fseek_set :: c_int

type_synonym FileSystem = "string \<Rightarrow> FILE option"

subsection \<open>calculateFileSHA256\<close>

definition bufferSize :: nat where
  "bufferSize = 4096"

text \<open>
  The read loop. \<open>fread(buffer, 1, bufferSize, file)\<close> delivers the next \<open>bufferSize\<close>
  bytes of the stream, or all that are left; the loop ends when it delivers none. The
  result is \<open>Inl\<close> of the status with which the function returns from inside the loop,
  or \<open>Inr\<close> of the context after the loop.
\<close>

function read_loop :: "byte list \<Rightarrow> CC_SHA256_CTX \<Rightarrow> c_int + CC_SHA256_CTX" where
  "read_loop unread sha256Context =
     (let buffer = take bufferSize unread;
          bytesRead = length buffer
      in if bytesRead > 0
         then if bytesRead > UINT32_MAX then Inl BRIDGE_ERROR_INVALID_PARAMETER
              else
                let updated = CC_SHA256_Update sha256Context buffer
                in if fst updated = 0 then Inl BRIDGE_ERROR_SYSTEM_CALL
                   else read_loop (drop bufferSize unread) (snd updated)
         else Inr sha256Context)"
  by pat_completeness auto
termination
  by (relation "measure (\<lambda>(unread, sha256Context). length unread)")
     (auto simp: bufferSize_def)

declare read_loop.simps [simp del]

text \<open>
  \<open>snprintf(hashString + off, 3, "%02x", b)\<close> for an \<open>unsigned char b\<close>: two lowercase
  hexadecimal digits and the terminator are written at \<open>off\<close>, and 2 is returned.
\<close>

definition hex_digit :: "nat \<Rightarrow> char" where
  "hex_digit n = ''0123456789abcdef'' ! n"

definition snprintf_02x :: "string \<Rightarrow> nat \<Rightarrow> byte \<Rightarrow> c_int \<times> string" where
  "snprintf_02x hashString off b =
     (2, hashString[off := hex_digit (unat (drop_bit 4 b)),
                    off + 1 := hex_digit (unat (b AND 15)),
                    off + 2 := CHR 0x00])"

text \<open>
  The conversion loop over the bytes of \<open>hash\<close>, from index \<open>i\<close> on. The status is
  \<open>BRIDGE_SUCCESS\<close> when the loop runs to its end, and the status with which the function
  returns from inside the loop otherwise.
\<close>

fun hex_loop :: "byte list \<Rightarrow> nat \<Rightarrow> string \<Rightarrow> c_int \<times> string" where
  "hex_loop [] i hashString = (BRIDGE_SUCCESS, hashString)"
| "hex_loop (b # hash) i hashString =
     (let printed = snprintf_02x hashString (i * 2) b
      in if fst printed \<noteq> 2 then (BRIDGE_ERROR_SYSTEM_CALL, snd printed)
         else hex_loop hash (i + 1) (snd printed))"

text \<open>
  \<open>filePath\<close> and \<open>hashString\<close> are \<open>None\<close> for \<open>NULL\<close>. \<open>hashString\<close> is otherwise the
  caller's buffer, one character per byte, of which \<open>hashStringSize\<close> bytes may be
  written. The function returns its status and the buffer after the call.
\<close>

definition calculateFileSHA256 ::
  "FileSystem \<Rightarrow> string option \<Rightarrow> string option \<Rightarrow> nat \<Rightarrow> c_int \<times> string option" where
  "calculateFileSHA256 fopen filePath hashString hashStringSize =
     (if filePath = None \<or> hashString = None then (BRIDGE_ERROR_NULL_POINTER, hashString)
      else if hashStringSize < 65 then (BRIDGE_ERROR_INVALID_PARAMETER, hashString)
      else if length (c_string filePath) = 0 then (BRIDGE_ERROR_INVALID_PARAMETER, hashString)
      else case fopen (c_string filePath) of
        None \<Rightarrow> (BRIDGE_ERROR_FILE_ACCESS, hashString)
      | Some file \<Rightarrow>
          if fseek_end file \<noteq> 0 then (BRIDGE_ERROR_FILE_ACCESS, hashString)
          else if sint (ftell_end file) < 0 then (BRIDGE_ERROR_FILE_ACCESS, hashString)
          else if fseek_set file \<noteq> 0 then (BRIDGE_ERROR_FILE_ACCESS, hashString)
          else if fst CC_SHA256_Init = 0 then (BRIDGE_ERROR_SYSTEM_CALL, hashString)
          else case read_loop (stream_bytes file) (snd CC_SHA256_Init) of
            Inl status \<Rightarrow> (status, hashString)
          | Inr sha256Context \<Rightarrow>
              if stream_error file then (BRIDGE_ERROR_FILE_ACCESS, hashString)
              else
                let final = CC_SHA256_Final sha256Context
                in if fst final = 0 then (BRIDGE_ERROR_SYSTEM_CALL, hashString)
                   else
                     let converted =
                           hex_loop (take CC_SHA256_DIGEST_LENGTH (snd final)) 0
                             (c_string hashString)
                     in if fst converted \<noteq> BRIDGE_SUCCESS
                        then (fst converted, Some (snd converted))
                        else (BRIDGE_SUCCESS,
                              Some ((snd converted)[CC_SHA256_DIGEST_LENGTH * 2 := CHR 0x00])))"

text \<open>The string a buffer holds: the characters in front of the first terminator.\<close>

definition digest_string :: "string \<Rightarrow> string" where
  "digest_string hashString = takeWhile (\<lambda>c. c \<noteq> CHR 0x00) hashString"

section \<open>The notions of the specification\<close>

text \<open>
  The specification's reading of the window metrics, stated on one window:
  a window is owned by \<open>pid\<close>; its geometry is implausible; it is excluded from capture;
  its layer is above the threshold 2.
\<close>

definition owned_by :: "pid_t \<Rightarrow> Window \<Rightarrow> bool" where
  "owned_by pid w \<longleftrightarrow> kCGWindowOwnerPID w = Some pid"

definition geometry_implausible :: "Window \<Rightarrow> bool" where
  "geometry_implausible w \<longleftrightarrow>
     (case kCGWindowBounds w of
        None \<Rightarrow> False
      | Some r \<Rightarrow>
          fl_less (origin_x r) (Finite (- 1000)) \<or> fl_less (origin_y r) (Finite (- 1000)) \<or>
          fl_greater (origin_x r) (Finite 10000) \<or> fl_greater (origin_y r) (Finite 10000) \<or>
          fl_less (size_width r) (Finite 1) \<or> fl_less (size_height r) (Finite 1))"

definition capture_excluded :: "Window \<Rightarrow> bool" where
  "capture_excluded w \<longleftrightarrow> kCGWindowSharingState w = Some 0"

definition evasion_score :: "Window \<Rightarrow> nat" where
  "evasion_score w = (if geometry_implausible w then 1 else 0) + (if capture_excluded w then 1 else 0)"

definition elevated_layer :: "Window \<Rightarrow> bool" where
  "elevated_layer w \<longleftrightarrow> (case kCGWindowLayer w of None \<Rightarrow> False | Some l \<Rightarrow> 2 < sint l)"

text \<open>
  An entry of the process list survives the enumeration when its pid is positive and its
  name is resolved.
\<close>

definition survives :: "System \<Rightarrow> kinfo_proc \<Rightarrow> bool" where
  "survives sys kp \<longleftrightarrow> 0 < sint (p_pid kp) \<and> fst (fill_info sys (p_pid kp)) = BRIDGE_SUCCESS"

text \<open>
  The hexadecimal rendering of a digest, two lowercase digits per byte, and the digest
  that the read loop and \<open>CC_SHA256_Final\<close> compute from the bytes of a stream.
\<close>

definition hex_of :: "byte list \<Rightarrow> string" where
  "hex_of bs =
     concat (map (\<lambda>b. [hex_digit (unat (drop_bit 4 b)), hex_digit (unat (b AND 15))]) bs)"

definition stream_digest :: "byte list \<Rightarrow> byte list" where
  "stream_digest bytes =
     (case read_loop bytes (snd CC_SHA256_Init) of
        Inl status \<Rightarrow> []
      | Inr sha256Context \<Rightarrow> snd (CC_SHA256_Final sha256Context))"

text \<open>A stream that can be sought and read to its end without an error.\<close>

definition healthy :: "FILE \<Rightarrow> bool" where
  "healthy file \<longleftrightarrow>
     fseek_end file = 0 \<and> 0 \<le> sint (ftell_end file) \<and> fseek_set file = 0 \<and> \<not> stream_error file"

section \<open>Concrete inputs\<close>

definition offscreen_rect :: CGRect where
  "offscreen_rect =
     \<lparr>origin_x = Finite (- 2000), origin_y = Finite (- 2000),
      size_width = Finite 100, size_height = Finite 100\<rparr>"

definition plain_rect :: CGRect where
  "plain_rect =
     \<lparr>origin_x = Finite 10, origin_y = Finite 20,
      size_width = Finite 800, size_height = Finite 600\<rparr>"

definition example_windows :: "Window list" where
  "example_windows =
     [\<lparr>kCGWindowOwnerPID = Some 42, kCGWindowBounds = Some offscreen_rect,
       kCGWindowSharingState = Some 1, kCGWindowLayer = Some 3\<rparr>,
      \<lparr>kCGWindowOwnerPID = Some 42, kCGWindowBounds = Some offscreen_rect,
       kCGWindowSharingState = Some 0, kCGWindowLayer = Some 1\<rparr>,
      \<lparr>kCGWindowOwnerPID = Some 7, kCGWindowBounds = Some offscreen_rect,
       kCGWindowSharingState = Some 0, kCGWindowLayer = Some 8\<rparr>,
      \<lparr>kCGWindowOwnerPID = Some 42, kCGWindowBounds = Some plain_rect,
       kCGWindowSharingState = Some 1, kCGWindowLayer = Some 0\<rparr>,
      \<lparr>kCGWindowOwnerPID = None, kCGWindowBounds = None,
       kCGWindowSharingState = Some 0, kCGWindowLayer = Some 25\<rparr>]"

definition example_server :: WindowServer where
  "example_server opt = Some example_windows"

definition window_server_unavailable :: WindowServer where
  "window_server_unavailable opt = None"

definition blank_properties :: WindowProperties where
  "blank_properties =
     \<lparr>wp_windowCount = 7, sharingStateDisabled = 7, elevatedLayers = 7, suspiciousPatterns = 7\<rparr>"

definition example_pidinfo :: "pid_t \<Rightarrow> proc_bsdinfo option" where
  "example_pidinfo pid =
     (if pid = 1 then Some \<lparr>pbi_name = ''launchd''\<rparr>
      else if pid = 42 then Some \<lparr>pbi_name = ''overlay''\<rparr>
      else if pid = 7 then Some \<lparr>pbi_name = ''Finder''\<rparr>
      else None)"

definition example_pidpath :: "pid_t \<Rightarrow> nat \<Rightarrow> string option" where
  "example_pidpath pid buffersize =
     (if pid = 1 then Some ''/sbin/launchd''
      else if pid = 7 then Some ''/System/Finder''
      else None)"

definition example_proc_list :: "kinfo_proc list" where
  "example_proc_list =
     [\<lparr>p_pid = 0\<rparr>, \<lparr>p_pid = 1\<rparr>, \<lparr>p_pid = 99\<rparr>, \<lparr>p_pid = 42\<rparr>, \<lparr>p_pid = 7\<rparr>]"

definition example_system :: System where
  "example_system =
     \<lparr>pthread_mutex_lock = 0, sysctl_size = Some 3240, malloc_proc_list = True,
      sysctl_proc_list = Some example_proc_list, malloc_processes = True,
      proc_pidinfo = example_pidinfo, proc_pidpath = example_pidpath,
      window_server = example_server\<rparr>"

definition example_records :: "SystemProcessInfo option list" where
  "example_records =
     [Some \<lparr>info_pid = 1, info_name = ''launchd'', info_path = ''/sbin/launchd'',
            windowCount = 0, suspiciousWindowCount = 0, screenEvasionCount = 0,
            elevatedLayerCount = 0\<rparr>,
      Some \<lparr>info_pid = 42, info_name = ''overlay'', info_path = [],
            windowCount = 3, suspiciousWindowCount = 1, screenEvasionCount = 3,
            elevatedLayerCount = 1\<rparr>,
      Some \<lparr>info_pid = 7, info_name = ''Finder'', info_path = ''/System/Finder'',
            windowCount = 1, suspiciousWindowCount = 1, screenEvasionCount = 2,
            elevatedLayerCount = 1\<rparr>]"

definition empty_file :: FILE where
  "empty_file =
     \<lparr>stream_bytes = [], stream_error = False, fseek_end = 0, ftell_end = 0, fseek_set = 0\<rparr>"

definition abc_file :: FILE where
  "abc_file =
     \<lparr>stream_bytes = [0x61, 0x62, 0x63], stream_error = False, fseek_end = 0, ftell_end = 3,
      fseek_set = 0\<rparr>"

definition example_files :: FileSystem where
  "example_files p =
     (if p = ''/tmp/empty'' then Some empty_file
      else if p = ''/tmp/abc'' then Some abc_file
      else None)"

definition other_files :: FileSystem where
  "other_files p = (if p = ''/var/copy-of-abc'' then Some (abc_file\<lparr>ftell_end := 3\<rparr>) else None)"

definition no_files :: FileSystem where
  "no_files p = None"

definition blank_buffer :: string where
  "blank_buffer = replicate 80 (CHR ''?'')"

definition small_buffer :: string where
  "small_buffer = replicate 65 (CHR ''-'')"

section \<open>Properties of the window metrics\<close>

lemma sint_of_nat_c_int:
  assumes "n < 2 ^ 31"
  shows "sint (of_nat n :: c_int) = int n"
proof -
  have "sint (of_nat n :: c_int) = signed_take_bit 31 (int n)"
    by (simp add: signed_of_nat)
  also have "\<dots> = int n"
    using assms by (simp add: signed_take_bit_int_eq_self)
  finally show ?thesis .
qed

lemma getWindowCount_loop_eq:
  "getWindowCount_loop pid ws c = c + of_nat (length (filter (owned_by pid) ws))"
  by (induction ws arbitrary: c) (auto simp: owned_by_def split: option.splits)

lemma evasion_checks_eq: "evasion_checks w c = c + of_nat (evasion_score w)"
  by (auto simp: evasion_checks_def evasion_score_def geometry_implausible_def
      capture_excluded_def suspicious_rect_def Let_def split: option.splits)

lemma detectScreenEvasion_loop_eq:
  "detectScreenEvasion_loop pid ws c =
     c + of_nat (sum_list (map evasion_score (filter (owned_by pid) ws)))"
  by (induction ws arbitrary: c)
     (auto simp: owned_by_def evasion_checks_eq add.assoc split: option.splits)

lemma detectElevatedLayers_loop_eq:
  "detectElevatedLayers_loop pid ws c =
     c + of_nat (length (filter (\<lambda>w. owned_by pid w \<and> elevated_layer w) ws))"
  by (induction ws arbitrary: c)
     (auto simp: owned_by_def elevated_layer_def split: option.splits)

lemma sharingStateDisabled_loop_eq:
  "sharingStateDisabled_loop pid ws p =
     p\<lparr>sharingStateDisabled := sharingStateDisabled p
          + of_nat (length (filter (\<lambda>w. owned_by pid w \<and> capture_excluded w) ws))\<rparr>"
  by (induction ws arbitrary: p)
     (auto simp: owned_by_def capture_excluded_def split: option.splits)

lemma evasion_score_le_2: "evasion_score w \<le> 2"
  by (simp add: evasion_score_def)

lemma sum_evasion_score_le:
  "sum_list (map evasion_score (filter P ws)) \<le> 2 * length ws"
proof (induction ws)
  case Nil
  show ?case by simp
next
  case (Cons w ws)
  then show ?case using evasion_score_le_2 [of w] by auto
qed

text \<open>
  C3. Over the windows owned by \<open>pid\<close>, \<open>detectScreenEvasion\<close> adds one for each of the
  two conditions a window satisfies (implausible geometry, excluded from capture), so a
  window satisfying both adds 2. A window at origin (-2000, -2000) with size (100, 100)
  adds 1 by its geometry alone and 2 when it is also excluded from capture. The list has
  fewer than \<open>2 ^ 30\<close> windows, so that the \<open>int\<close> counter does not overflow.
\<close>

theorem detectScreenEvasion_score:
  assumes "0 < sint pid"
    and "CGWindowListCopyWindowInfo kCGWindowListOptionAll = Some windowList"
    and "length windowList < 2 ^ 30"
  shows "sint (detectScreenEvasion CGWindowListCopyWindowInfo pid) =
           int (sum_list (map evasion_score (filter (owned_by pid) windowList))) \<and>
         (\<forall>w. geometry_implausible w \<and> capture_excluded w \<longrightarrow> evasion_score w = 2) \<and>
         (\<forall>w. kCGWindowBounds w = Some offscreen_rect \<longrightarrow>
              evasion_score w = (if capture_excluded w then 2 else 1))"
proof -
  have "sum_list (map evasion_score (filter (owned_by pid) windowList)) < 2 ^ 31"
    using sum_evasion_score_le [of "owned_by pid" windowList] assms(3) by simp
  then have "sint (detectScreenEvasion CGWindowListCopyWindowInfo pid) =
      int (sum_list (map evasion_score (filter (owned_by pid) windowList)))"
    using assms(1,2)
    by (simp add: detectScreenEvasion_def detectScreenEvasion_loop_eq sint_of_nat_c_int)
  moreover have "\<forall>w. geometry_implausible w \<and> capture_excluded w \<longrightarrow> evasion_score w = 2"
    by (simp add: evasion_score_def)
  moreover have "\<forall>w. kCGWindowBounds w = Some offscreen_rect \<longrightarrow>
      evasion_score w = (if capture_excluded w then 2 else 1)"
    by (simp add: evasion_score_def geometry_implausible_def offscreen_rect_def)
  ultimately show ?thesis by blast
qed

theorem detectScreenEvasion_score_witness:
  "0 < sint (42 :: pid_t) \<and>
   example_server kCGWindowListOptionAll = Some example_windows \<and>
   length example_windows < 2 ^ 30 \<and>
   sint (detectScreenEvasion example_server 42) = 3"
proof -
  have h1: "0 < sint (42 :: pid_t)" by simp
  have h2: "example_server kCGWindowListOptionAll = Some example_windows"
    by (simp add: example_server_def)
  have h3: "length example_windows < 2 ^ 30"
    by (simp add: example_windows_def)
  have "int (sum_list (map evasion_score (filter (owned_by 42) example_windows))) = 3"
    by (simp add: example_windows_def owned_by_def evasion_score_def geometry_implausible_def
        capture_excluded_def offscreen_rect_def plain_rect_def)
  with detectScreenEvasion_score [of 42 example_server example_windows] h1 h2 h3
  show ?thesis by simp
qed

text \<open>
  C4. \<open>detectElevatedLayers\<close> counts exactly the windows owned by \<open>pid\<close> whose layer is
  strictly greater than 2: a window of layer 3 adds one to the count, a window of layer 1
  adds nothing. The list has fewer than \<open>2 ^ 31\<close> windows, so that the \<open>int\<close> counter
  does not overflow.
\<close>

theorem detectElevatedLayers_counts:
  assumes "0 < sint pid"
    and "CGWindowListCopyWindowInfo kCGWindowListOptionAll = Some windowList"
    and "length windowList < 2 ^ 31"
  shows "sint (detectElevatedLayers CGWindowListCopyWindowInfo pid) =
           int (length (filter (\<lambda>w. owned_by pid w \<and> elevated_layer w) windowList)) \<and>
         (\<forall>w rest c. owned_by pid w \<and> kCGWindowLayer w = Some 3 \<longrightarrow>
              detectElevatedLayers_loop pid (w # rest) c =
              detectElevatedLayers_loop pid rest (c + 1)) \<and>
         (\<forall>w rest c. owned_by pid w \<and> kCGWindowLayer w = Some 1 \<longrightarrow>
              detectElevatedLayers_loop pid (w # rest) c =
              detectElevatedLayers_loop pid rest c)"
proof -
  have "length (filter (\<lambda>w. owned_by pid w \<and> elevated_layer w) windowList) \<le> length windowList"
    by (rule length_filter_le)
  with assms(3)
  have "length (filter (\<lambda>w. owned_by pid w \<and> elevated_layer w) windowList) < 2 ^ 31"
    by linarith
  then have "sint (detectElevatedLayers CGWindowListCopyWindowInfo pid) =
      int (length (filter (\<lambda>w. owned_by pid w \<and> elevated_layer w) windowList))"
    using assms(1,2)
    by (simp add: detectElevatedLayers_def detectElevatedLayers_loop_eq sint_of_nat_c_int)
  then show ?thesis
    by (simp add: owned_by_def)
qed

theorem detectElevatedLayers_counts_witness:
  "0 < sint (42 :: pid_t) \<and>
   example_server kCGWindowListOptionAll = Some example_windows \<and>
   length example_windows < 2 ^ 31 \<and>
   sint (detectElevatedLayers example_server 42) = 1"
proof -
  have h1: "0 < sint (42 :: pid_t)" by simp
  have h2: "example_server kCGWindowListOptionAll = Some example_windows"
    by (simp add: example_server_def)
  have h3: "length example_windows < 2 ^ 31"
    by (simp add: example_windows_def)
  have "int (length (filter (\<lambda>w. owned_by 42 w \<and> elevated_layer w) example_windows)) = 1"
    by (simp add: example_windows_def owned_by_def elevated_layer_def)
  with detectElevatedLayers_counts [of 42 example_server example_windows] h1 h2 h3
  show ?thesis by simp
qed

text \<open>
  With a window server that answers no query, \<open>getWindowProperties\<close> for pid 42 returns
  \<open>BRIDGE_ERROR_SYSTEM_CALL\<close>: an error, not an empty result.
\<close>

theorem getWindowProperties_unavailable_counterexample:
  "window_server_unavailable kCGWindowListOptionAll = None \<and>
   window_server_unavailable kCGWindowListOptionOnScreenOnly = None \<and>
   fst (getWindowProperties window_server_unavailable 42 (Some blank_properties)) = - 4 \<and>
   fst (getWindowProperties window_server_unavailable 42 (Some blank_properties)) \<noteq> BRIDGE_SUCCESS \<and>
   sint (fst (getWindowProperties window_server_unavailable 42 (Some blank_properties))) < 0"
  by (simp add: getWindowProperties_def window_server_unavailable_def BridgeErrorCode_defs)

text \<open>
  C8, as the code has it. When the window list query returns nothing, \<open>getWindowCount\<close>,
  \<open>detectScreenEvasion\<close> and \<open>detectElevatedLayers\<close> return 0. \<open>getWindowProperties\<close>,
  called for a positive pid, sets the four counts of the struct to 0 and returns
  \<open>BRIDGE_ERROR_SYSTEM_CALL\<close> (-4).
\<close>

theorem window_server_unavailable_results:
  assumes "CGWindowListCopyWindowInfo kCGWindowListOptionAll = None"
    and "CGWindowListCopyWindowInfo kCGWindowListOptionOnScreenOnly = None"
  shows "getWindowCount CGWindowListCopyWindowInfo pid = 0 \<and>
         detectScreenEvasion CGWindowListCopyWindowInfo pid = 0 \<and>
         detectElevatedLayers CGWindowListCopyWindowInfo pid = 0 \<and>
         (0 < sint pid \<longrightarrow>
            getWindowProperties CGWindowListCopyWindowInfo pid (Some p) =
              (BRIDGE_ERROR_SYSTEM_CALL,
               Some \<lparr>wp_windowCount = 0, sharingStateDisabled = 0,
                     elevatedLayers = 0, suspiciousPatterns = 0\<rparr>) \<and>
            BRIDGE_ERROR_SYSTEM_CALL = - 4)"
  using assms
  by (simp add: getWindowCount_def detectScreenEvasion_def detectElevatedLayers_def
      getWindowProperties_def BRIDGE_ERROR_SYSTEM_CALL_def)

theorem window_server_unavailable_results_witness:
  "window_server_unavailable kCGWindowListOptionAll = None \<and>
   window_server_unavailable kCGWindowListOptionOnScreenOnly = None \<and>
   getWindowCount window_server_unavailable 42 = 0 \<and>
   detectScreenEvasion window_server_unavailable 42 = 0 \<and>
   detectElevatedLayers window_server_unavailable 42 = 0 \<and>
   0 < sint (42 :: pid_t) \<and>
   getWindowProperties window_server_unavailable 42 (Some blank_properties) =
     (- 4, Some \<lparr>wp_windowCount = 0, sharingStateDisabled = 0,
                 elevatedLayers = 0, suspiciousPatterns = 0\<rparr>)"
proof -
  have h1: "window_server_unavailable kCGWindowListOptionAll = None"
    by (simp add: window_server_unavailable_def)
  have h2: "window_server_unavailable kCGWindowListOptionOnScreenOnly = None"
    by (simp add: window_server_unavailable_def)
  have h3: "0 < sint (42 :: pid_t)" by simp
  show ?thesis
    using window_server_unavailable_results [of window_server_unavailable 42 blank_properties]
      h1 h2 h3
    by (simp add: BRIDGE_ERROR_SYSTEM_CALL_def)
qed

text \<open>
  C10. For every pid \<open>\<le> 0\<close>, \<open>getWindowCount\<close>, \<open>detectScreenEvasion\<close> and
  \<open>detectElevatedLayers\<close> return 0, which is also what they return for a process that
  owns no window, while \<open>getWindowProperties\<close> (given a struct to fill) returns
  \<open>BRIDGE_ERROR_INVALID_PARAMETER\<close> (-2) and leaves the struct as it was.
\<close>

theorem nonpositive_pid_results:
  assumes "sint pid \<le> 0"
  shows "getWindowCount CGWindowListCopyWindowInfo pid = 0 \<and>
         detectScreenEvasion CGWindowListCopyWindowInfo pid = 0 \<and>
         detectElevatedLayers CGWindowListCopyWindowInfo pid = 0 \<and>
         getWindowProperties CGWindowListCopyWindowInfo pid (Some p) =
           (BRIDGE_ERROR_INVALID_PARAMETER, Some p) \<and>
         BRIDGE_ERROR_INVALID_PARAMETER = - 2 \<and>
         ((\<forall>opt ws. CGWindowListCopyWindowInfo opt = Some ws \<longrightarrow> (\<forall>w \<in> set ws. \<not> owned_by q w)) \<longrightarrow>
            getWindowCount CGWindowListCopyWindowInfo q = 0 \<and>
            detectScreenEvasion CGWindowListCopyWindowInfo q = 0 \<and>
            detectElevatedLayers CGWindowListCopyWindowInfo q = 0)"
proof -
  have none_owned: "filter (owned_by q) ws = []" if "\<forall>w \<in> set ws. \<not> owned_by q w" for ws
    using that by (simp add: filter_empty_conv)
  have none_owned': "filter (\<lambda>w. owned_by q w \<and> elevated_layer w) ws = []"
    if "\<forall>w \<in> set ws. \<not> owned_by q w" for ws
    using that by (simp add: filter_empty_conv)
  have "getWindowCount CGWindowListCopyWindowInfo q = 0 \<and>
        detectScreenEvasion CGWindowListCopyWindowInfo q = 0 \<and>
        detectElevatedLayers CGWindowListCopyWindowInfo q = 0"
    if "\<forall>opt ws. CGWindowListCopyWindowInfo opt = Some ws \<longrightarrow> (\<forall>w \<in> set ws. \<not> owned_by q w)"
    using that
    by (auto simp: getWindowCount_def detectScreenEvasion_def detectElevatedLayers_def
        getWindowCount_loop_eq detectScreenEvasion_loop_eq detectElevatedLayers_loop_eq
        none_owned none_owned' split: option.splits)
  then show ?thesis
    using assms
    by (simp add: getWindowCount_def detectScreenEvasion_def detectElevatedLayers_def
        getWindowProperties_def BRIDGE_ERROR_INVALID_PARAMETER_def)
qed

theorem nonpositive_pid_results_witness:
  "sint (- 3 :: pid_t) \<le> 0 \<and>
   getWindowCount example_server (- 3) = 0 \<and>
   detectScreenEvasion example_server (- 3) = 0 \<and>
   detectElevatedLayers example_server (- 3) = 0 \<and>
   getWindowProperties example_server (- 3) (Some blank_properties) = (- 2, Some blank_properties) \<and>
   getWindowCount example_server 5 = 0 \<and>
   detectScreenEvasion example_server 5 = 0 \<and>
   detectElevatedLayers example_server 5 = 0"
proof -
  have h1: "sint (- 3 :: pid_t) \<le> 0" by simp
  have h2: "\<forall>opt ws. example_server opt = Some ws \<longrightarrow> (\<forall>w \<in> set ws. \<not> owned_by 5 w)"
    by (simp add: example_server_def example_windows_def owned_by_def)
  show ?thesis
    using nonpositive_pid_results [of "- 3" example_server blank_properties 5] h1 h2
    by (simp add: BRIDGE_ERROR_INVALID_PARAMETER_def)
qed

section \<open>Properties of the enumeration\<close>

lemma getAllProcesses_loop_char:
  assumes "getAllProcesses_loop sys kps arr (of_nat n) = (arr', vc')"
    and "n + length kps \<le> length arr" and "length arr < 2 ^ 31"
  shows "vc' = of_nat (n + length (filter (survives sys) kps)) \<and>
         length arr' = length arr \<and>
         take (n + length (filter (survives sys) kps)) arr' =
           take n arr @ map (\<lambda>kp. Some (snd (fill_info sys (p_pid kp)))) (filter (survives sys) kps)"
  using assms
proof (induction kps arbitrary: arr n)
  case Nil
  then show ?case by simp
next
  case (Cons kp kps)
  have n_small: "n < 2 ^ 31" using Cons.prems by simp
  have idx: "nat (sint (of_nat n :: c_int)) = n"
    using n_small by (simp add: sint_of_nat_c_int)
  show ?case
  proof (cases "sint (p_pid kp) \<le> 0")
    case True
    then have "\<not> survives sys kp" by (simp add: survives_def)
    moreover have "getAllProcesses_loop sys kps arr (of_nat n) = (arr', vc')"
      using Cons.prems(1) True by simp
    moreover have "n + length kps \<le> length arr" using Cons.prems(2) by simp
    ultimately show ?thesis
      using Cons.IH [of arr n] Cons.prems(3) by simp
  next
    case False
    let ?info = "snd (fill_info sys (p_pid kp))"
    let ?arr = "arr[n := Some ?info]"
    show ?thesis
    proof (cases "fst (fill_info sys (p_pid kp)) = BRIDGE_SUCCESS")
      case True
      then have surv: "survives sys kp" using False by (simp add: survives_def)
      have run: "getAllProcesses_loop sys kps ?arr (of_nat (Suc n)) = (arr', vc')"
        using Cons.prems(1) False True by (simp add: idx Let_def add.commute)
      have len: "Suc n + length kps \<le> length ?arr" using Cons.prems(2) by simp
      have small: "length ?arr < 2 ^ 31" using Cons.prems(3) by simp
      have n_lt: "n < length arr" using Cons.prems(2) by simp
      from Cons.IH [OF run len small]
      have ih: "vc' = of_nat (Suc n + length (filter (survives sys) kps))"
        "length arr' = length ?arr"
        "take (Suc n + length (filter (survives sys) kps)) arr' =
           take (Suc n) ?arr @
           map (\<lambda>kp. Some (snd (fill_info sys (p_pid kp)))) (filter (survives sys) kps)"
        by simp_all
      have "take (Suc n) ?arr = take n arr @ [Some ?info]"
        using n_lt by (simp add: take_Suc_conv_app_nth)
      with ih surv show ?thesis by simp
    next
      case failed: False
      then have surv: "\<not> survives sys kp" by (simp add: survives_def)
      have run: "getAllProcesses_loop sys kps ?arr (of_nat n) = (arr', vc')"
        using Cons.prems(1) False failed by (simp add: idx Let_def)
      have len: "n + length kps \<le> length ?arr" using Cons.prems(2) by simp
      have small: "length ?arr < 2 ^ 31" using Cons.prems(3) by simp
      from Cons.IH [OF run len small] surv show ?thesis by simp
    qed
  qed
qed

lemma BridgeErrorCode_negative:
  "sint BRIDGE_ERROR_NULL_POINTER < 0" "sint BRIDGE_ERROR_INVALID_PARAMETER < 0"
  "sint BRIDGE_ERROR_MEMORY_ALLOCATION < 0" "sint BRIDGE_ERROR_SYSTEM_CALL < 0"
  "sint BRIDGE_ERROR_FILE_ACCESS < 0"
  by (simp_all add: BridgeErrorCode_defs)

lemma length_visited: "length (visited proc_list) \<le> nat (sint (proc_count_of proc_list))"
  by (simp add: visited_def)

lemma proc_count_small: "nat (sint (proc_count_of proc_list)) < 2 ^ 31"
proof -
  have "sint (proc_count_of proc_list) < 2 ^ (LENGTH(32) - 1)"
    by (rule sint_lt)
  then show ?thesis by simp
qed

text \<open>
  A call that returns a count has run the loop: the count is the number of surviving
  entries, and the returned records are theirs, in the order of the process list.
\<close>

lemma getAllProcesses_success:
  assumes "getAllProcesses sys processes_given = result" and "0 \<le> sint (fst result)"
  shows "\<exists>proc_list. sysctl_proc_list sys = Some proc_list \<and>
           sint (fst result) = int (length (filter (survives sys) (visited proc_list))) \<and>
           returned_records result =
             map (\<lambda>kp. Some (snd (fill_info sys (p_pid kp))))
               (filter (survives sys) (visited proc_list))"
proof -
  from assms BridgeErrorCode_negative
  obtain proc_list where pl: "sysctl_proc_list sys = Some proc_list"
    and run: "result =
      (snd (getAllProcesses_loop sys (visited proc_list)
              (replicate (nat (sint (proc_count_of proc_list))) None) 0),
       fst (getAllProcesses_loop sys (visited proc_list)
              (replicate (nat (sint (proc_count_of proc_list))) None) 0))"
    by (auto simp: getAllProcesses_def Let_def split: if_splits option.splits)
  let ?N = "nat (sint (proc_count_of proc_list))"
  let ?good = "filter (survives sys) (visited proc_list)"
  obtain arr' vc' where loop:
    "getAllProcesses_loop sys (visited proc_list) (replicate ?N None) (of_nat 0) = (arr', vc')"
    by (cases "getAllProcesses_loop sys (visited proc_list) (replicate ?N None) (of_nat 0)")
  have res: "result = (vc', arr')" using run loop by simp
  have len: "0 + length (visited proc_list) \<le> length (replicate ?N (None :: SystemProcessInfo option))"
    using length_visited [of proc_list] by simp
  have small: "length (replicate ?N (None :: SystemProcessInfo option)) < 2 ^ 31"
    using proc_count_small [of proc_list] by simp
  from getAllProcesses_loop_char [OF loop len small]
  have vc: "vc' = of_nat (length ?good)"
    and tk: "take (length ?good) arr' = map (\<lambda>kp. Some (snd (fill_info sys (p_pid kp)))) ?good"
    by simp_all
  have "length ?good \<le> length (visited proc_list)" by (rule length_filter_le)
  with length_visited [of proc_list] proc_count_small [of proc_list]
  have "length ?good < 2 ^ 31" by linarith
  then have sint_vc: "sint vc' = int (length ?good)"
    using vc by (simp add: sint_of_nat_c_int)
  then have "returned_records result = take (length ?good) arr'"
    by (simp add: returned_records_def res)
  with tk sint_vc res pl show ?thesis by simp
qed

lemma fill_info_pid: "info_pid (snd (fill_info sys pid)) = pid"
  by (simp add: fill_info_def Let_def)

lemma fill_info_status:
  "fst (fill_info sys pid) = fst (getProcessName sys pid (Some []) PROC_PIDPATHINFO_MAXSIZE)"
  by (simp add: fill_info_def Let_def)

lemma getProcessName_status:
  "fst (getProcessName sys pid (Some buf) nameSize) = fst (getProcessName sys pid (Some buf') nameSize)"
  by (simp add: getProcessName_def split: option.splits)

lemma getProcessPath_status:
  "fst (getProcessPath sys pid (Some buf) pathSize) = fst (getProcessPath sys pid (Some buf') pathSize)"
  by (simp add: getProcessPath_def split: option.splits)

lemma getProcessPath_failure:
  "fst (getProcessPath sys pid (Some buf) PROC_PIDPATHINFO_MAXSIZE) \<noteq> BRIDGE_SUCCESS \<Longrightarrow>
   0 < sint pid \<Longrightarrow>
   snd (getProcessPath sys pid (Some buf) PROC_PIDPATHINFO_MAXSIZE) = Some []"
  by (simp add: getProcessPath_def PROC_PIDPATHINFO_MAXSIZE_def UINT32_MAX_def
      split: option.splits)

lemma fill_info_path:
  assumes "fst (fill_info sys pid) = BRIDGE_SUCCESS"
  shows "info_path (snd (fill_info sys pid)) =
     c_string (snd (getProcessPath sys pid (Some []) PROC_PIDPATHINFO_MAXSIZE))"
proof -
  from assms have "fst (getProcessName sys pid (Some []) PROC_PIDPATHINFO_MAXSIZE) = BRIDGE_SUCCESS"
    by (simp add: fill_info_status)
  then show ?thesis
    by (simp add: fill_info_def Let_def)
qed

lemma fill_info_name:
  "info_name (snd (fill_info sys pid)) =
     c_string (snd (getProcessName sys pid (Some []) PROC_PIDPATHINFO_MAXSIZE))"
  by (simp add: fill_info_def Let_def)

lemma fill_info_counts:
  assumes "fst (fill_info sys pid) = BRIDGE_SUCCESS"
  shows "windowCount (snd (fill_info sys pid)) = getWindowCount (window_server sys) pid \<and>
   screenEvasionCount (snd (fill_info sys pid)) = detectScreenEvasion (window_server sys) pid \<and>
   elevatedLayerCount (snd (fill_info sys pid)) = detectElevatedLayers (window_server sys) pid"
proof -
  from assms have "fst (getProcessName sys pid (Some []) PROC_PIDPATHINFO_MAXSIZE) = BRIDGE_SUCCESS"
    by (simp add: fill_info_status)
  then show ?thesis
    by (simp add: fill_info_def Let_def)
qed

lemma fill_info_suspicious:
  assumes "fst (fill_info sys pid) = BRIDGE_SUCCESS"
  shows "suspiciousWindowCount (snd (fill_info sys pid)) =
     (if 0 < sint (screenEvasionCount (snd (fill_info sys pid))) \<or>
         0 < sint (elevatedLayerCount (snd (fill_info sys pid)))
      then 1 else 0)"
proof -
  from assms have "fst (getProcessName sys pid (Some []) PROC_PIDPATHINFO_MAXSIZE) = BRIDGE_SUCCESS"
    by (simp add: fill_info_status)
  then show ?thesis
    by (simp add: fill_info_def Let_def)
qed

lemma getWindowCount_nonneg:
  assumes "\<And>ws. srv kCGWindowListOptionOnScreenOnly = Some ws \<Longrightarrow> length ws < 2 ^ 31"
  shows "0 \<le> sint (getWindowCount srv pid)"
proof (cases "srv kCGWindowListOptionOnScreenOnly")
  case None
  then show ?thesis by (simp add: getWindowCount_def)
next
  case (Some ws)
  have "length (filter (owned_by pid) ws) \<le> length ws" by (rule length_filter_le)
  with assms [OF Some] have "length (filter (owned_by pid) ws) < 2 ^ 31" by linarith
  then show ?thesis
    using Some by (simp add: getWindowCount_def getWindowCount_loop_eq sint_of_nat_c_int)
qed

lemma detectScreenEvasion_nonneg:
  assumes "\<And>ws. srv kCGWindowListOptionAll = Some ws \<Longrightarrow> length ws < 2 ^ 30"
  shows "0 \<le> sint (detectScreenEvasion srv pid)"
proof (cases "srv kCGWindowListOptionAll")
  case None
  then show ?thesis by (simp add: detectScreenEvasion_def)
next
  case (Some ws)
  have "sum_list (map evasion_score (filter (owned_by pid) ws)) < 2 ^ 31"
    using sum_evasion_score_le [of "owned_by pid" ws] assms [OF Some] by simp
  then show ?thesis
    using Some
    by (simp add: detectScreenEvasion_def detectScreenEvasion_loop_eq sint_of_nat_c_int)
qed

lemma detectElevatedLayers_nonneg:
  assumes "\<And>ws. srv kCGWindowListOptionAll = Some ws \<Longrightarrow> length ws < 2 ^ 31"
  shows "0 \<le> sint (detectElevatedLayers srv pid)"
proof (cases "srv kCGWindowListOptionAll")
  case None
  then show ?thesis by (simp add: detectElevatedLayers_def)
next
  case (Some ws)
  have "length (filter (\<lambda>w. owned_by pid w \<and> elevated_layer w) ws) \<le> length ws"
    by (rule length_filter_le)
  with assms [OF Some]
  have "length (filter (\<lambda>w. owned_by pid w \<and> elevated_layer w) ws) < 2 ^ 31" by linarith
  then show ?thesis
    using Some
    by (simp add: detectElevatedLayers_def detectElevatedLayers_loop_eq sint_of_nat_c_int)
qed

text \<open>The enumeration run on the example system.\<close>

lemma example_fill_info:
  "fill_info example_system 1 = (BRIDGE_SUCCESS, the (example_records ! 0))"
  "fill_info example_system 42 = (BRIDGE_SUCCESS, the (example_records ! 1))"
  "fill_info example_system 7 = (BRIDGE_SUCCESS, the (example_records ! 2))"
  "fst (fill_info example_system 99) = BRIDGE_ERROR_SYSTEM_CALL"
  by (simp_all add: fill_info_def example_system_def example_records_def getProcessName_def
      getProcessPath_def example_pidinfo_def example_pidpath_def c_string_def
      PROC_PIDPATHINFO_MAXSIZE_def UINT32_MAX_def Let_def
      getWindowCount_def detectScreenEvasion_def detectElevatedLayers_def
      example_server_def example_windows_def evasion_checks_def suspicious_rect_def
      offscreen_rect_def plain_rect_def)

lemma example_run:
  "getAllProcesses example_system True = (3, example_records @ [None, None])"
proof -
  have pc: "proc_count_of example_proc_list = 5"
    by (simp add: proc_count_of_def example_proc_list_def)
  have vis: "visited example_proc_list = example_proc_list"
    by (simp add: visited_def pc) (simp add: example_proc_list_def)
  have rep: "replicate 5 (None :: SystemProcessInfo option) = [None, None, None, None, None]"
    by (simp add: numeral_eq_Suc)
  have "getAllProcesses_loop example_system example_proc_list (replicate 5 None) 0 =
      (example_records @ [None, None], 3)"
    unfolding rep
    by (simp add: example_proc_list_def example_fill_info BridgeErrorCode_defs
        example_records_def Let_def)
  then show ?thesis
    by (simp add: getAllProcesses_def example_system_def pc vis Let_def)
qed

lemma returned_record_survivor:
  assumes "getAllProcesses sys processes_given = result" and "0 \<le> sint (fst result)"
    and "slot \<in> set (returned_records result)"
  shows "\<exists>pid. slot = Some (snd (fill_info sys pid)) \<and> 0 < sint pid \<and>
           fst (fill_info sys pid) = BRIDGE_SUCCESS"
proof -
  from getAllProcesses_success [OF assms(1,2)] assms(3)
  obtain kp where "survives sys kp" and "slot = Some (snd (fill_info sys (p_pid kp)))"
    by auto
  then show ?thesis by (auto simp: survives_def)
qed

text \<open>
  C1. For every call of \<open>getAllProcesses\<close> that returns a count, every record of the
  returned collection has \<open>pid > 0\<close>, \<open>windowCount \<ge> 0\<close>, \<open>screenEvasionCount \<ge> 0\<close>,
  \<open>elevatedLayerCount \<ge> 0\<close> and a \<open>suspiciousWindowCount\<close> of 0 or 1; the collection has
  as many records as the count says. The window lists have fewer than \<open>2 ^ 30\<close> entries,
  so that the \<open>int\<close> counters do not overflow.
\<close>

theorem getAllProcesses_record_invariants:
  assumes "getAllProcesses sys processes_given = result" and "0 \<le> sint (fst result)"
    and "\<forall>opt ws. window_server sys opt = Some ws \<longrightarrow> length ws < 2 ^ 30"
  shows "length (returned_records result) = nat (sint (fst result)) \<and>
         (\<forall>slot \<in> set (returned_records result).
            \<exists>p. slot = Some p \<and> 0 < sint (info_pid p) \<and> 0 \<le> sint (windowCount p) \<and>
                0 \<le> sint (screenEvasionCount p) \<and> 0 \<le> sint (elevatedLayerCount p) \<and>
                (suspiciousWindowCount p = 0 \<or> suspiciousWindowCount p = 1))"
proof -
  have small: "length ws < 2 ^ 30" if "window_server sys opt = Some ws" for opt ws
    using assms(3) that by blast
  have small': "length ws < 2 ^ 31" if "window_server sys opt = Some ws" for opt ws
  proof -
    have "(2 :: nat) ^ 30 < 2 ^ 31" by simp
    with small [OF that] show ?thesis by linarith
  qed
  have len: "length (returned_records result) = nat (sint (fst result))"
    using getAllProcesses_success [OF assms(1,2)] by auto
  have "\<exists>p. slot = Some p \<and> 0 < sint (info_pid p) \<and> 0 \<le> sint (windowCount p) \<and>
            0 \<le> sint (screenEvasionCount p) \<and> 0 \<le> sint (elevatedLayerCount p) \<and>
            (suspiciousWindowCount p = 0 \<or> suspiciousWindowCount p = 1)"
    if "slot \<in> set (returned_records result)" for slot
  proof -
    from returned_record_survivor [OF assms(1,2) that]
    obtain pid where slot: "slot = Some (snd (fill_info sys pid))" and pos: "0 < sint pid"
      and ok: "fst (fill_info sys pid) = BRIDGE_SUCCESS"
      by blast
    let ?p = "snd (fill_info sys pid)"
    have "0 < sint (info_pid ?p)" using pos by (simp add: fill_info_pid)
    moreover have "0 \<le> sint (windowCount ?p)"
      using fill_info_counts [OF ok] getWindowCount_nonneg [of "window_server sys" pid] small'
      by simp
    moreover have "0 \<le> sint (screenEvasionCount ?p)"
      using fill_info_counts [OF ok] detectScreenEvasion_nonneg [of "window_server sys" pid] small
      by simp
    moreover have "0 \<le> sint (elevatedLayerCount ?p)"
      using fill_info_counts [OF ok] detectElevatedLayers_nonneg [of "window_server sys" pid] small'
      by simp
    moreover have "suspiciousWindowCount ?p = 0 \<or> suspiciousWindowCount ?p = 1"
      using fill_info_suspicious [OF ok] by (simp split: if_splits)
    ultimately show ?thesis using slot by blast
  qed
  with len show ?thesis by blast
qed

theorem getAllProcesses_record_invariants_witness:
  "0 \<le> sint (fst (getAllProcesses example_system True)) \<and>
   length example_windows < 2 ^ 30 \<and>
   returned_records (getAllProcesses example_system True) = example_records \<and>
   length example_records = 3 \<and>
   (\<exists>p. example_records ! 1 = Some p \<and> 0 < sint (info_pid p) \<and> 0 \<le> sint (windowCount p) \<and>
        0 \<le> sint (screenEvasionCount p) \<and> 0 \<le> sint (elevatedLayerCount p) \<and>
        (suspiciousWindowCount p = 0 \<or> suspiciousWindowCount p = 1))"
proof -
  have h2: "0 \<le> sint (fst (getAllProcesses example_system True))"
    by (simp add: example_run)
  have h3: "\<forall>opt ws. window_server example_system opt = Some ws \<longrightarrow> length ws < 2 ^ 30"
    by (simp add: example_system_def example_server_def example_windows_def)
  have ret: "returned_records (getAllProcesses example_system True) = example_records"
    by (simp add: returned_records_def example_run example_records_def)
  have mem: "example_records ! 1 \<in> set example_records"
    by (simp add: example_records_def)
  have "length example_windows < 2 ^ 30" "length example_records = 3"
    by (simp_all add: example_windows_def example_records_def)
  with getAllProcesses_record_invariants [OF refl h2 h3] h2 ret mem show ?thesis
    by auto
qed

text \<open>
  C2. For every record \<open>p\<close> that the enumeration returns, \<open>suspiciousWindowCount p\<close> is 1
  if and only if \<open>screenEvasionCount p > 0\<close> or \<open>elevatedLayerCount p > 0\<close>, and is 0
  otherwise.
\<close>

theorem suspiciousWindowCount_composite:
  assumes "getAllProcesses sys processes_given = result" and "0 \<le> sint (fst result)"
  shows "\<forall>slot \<in> set (returned_records result).
           \<exists>p. slot = Some p \<and>
               (suspiciousWindowCount p = 1 \<longleftrightarrow>
                  0 < sint (screenEvasionCount p) \<or> 0 < sint (elevatedLayerCount p)) \<and>
               (suspiciousWindowCount p = 0 \<longleftrightarrow>
                  \<not> (0 < sint (screenEvasionCount p) \<or> 0 < sint (elevatedLayerCount p)))"
proof
  fix slot
  assume "slot \<in> set (returned_records result)"
  from returned_record_survivor [OF assms this]
  obtain pid where slot: "slot = Some (snd (fill_info sys pid))"
    and ok: "fst (fill_info sys pid) = BRIDGE_SUCCESS"
    by blast
  from fill_info_suspicious [OF ok] slot
  show "\<exists>p. slot = Some p \<and>
          (suspiciousWindowCount p = 1 \<longleftrightarrow>
             0 < sint (screenEvasionCount p) \<or> 0 < sint (elevatedLayerCount p)) \<and>
          (suspiciousWindowCount p = 0 \<longleftrightarrow>
             \<not> (0 < sint (screenEvasionCount p) \<or> 0 < sint (elevatedLayerCount p)))"
    by (simp split: if_splits)
qed

theorem suspiciousWindowCount_composite_witness:
  "0 \<le> sint (fst (getAllProcesses example_system True)) \<and>
   returned_records (getAllProcesses example_system True) = example_records \<and>
   (\<exists>p. example_records ! 0 = Some p \<and> suspiciousWindowCount p = 0 \<and>
        \<not> (0 < sint (screenEvasionCount p) \<or> 0 < sint (elevatedLayerCount p))) \<and>
   (\<exists>p. example_records ! 2 = Some p \<and> suspiciousWindowCount p = 1 \<and>
        (0 < sint (screenEvasionCount p) \<or> 0 < sint (elevatedLayerCount p)))"
proof -
  have h2: "0 \<le> sint (fst (getAllProcesses example_system True))"
    by (simp add: example_run)
  have ret: "returned_records (getAllProcesses example_system True) = example_records"
    by (simp add: returned_records_def example_run example_records_def)
  have mem: "example_records ! 0 \<in> set example_records" "example_records ! 2 \<in> set example_records"
    by (simp_all add: example_records_def)
  have vals: "suspiciousWindowCount (the (example_records ! 0)) = 0"
    "suspiciousWindowCount (the (example_records ! 2)) = 1"
    by (simp_all add: example_records_def)
  from suspiciousWindowCount_composite [OF refl h2] ret mem
  have "\<exists>p. example_records ! 0 = Some p \<and>
          (suspiciousWindowCount p = 0 \<longleftrightarrow>
             \<not> (0 < sint (screenEvasionCount p) \<or> 0 < sint (elevatedLayerCount p)))"
    and "\<exists>p. example_records ! 2 = Some p \<and>
          (suspiciousWindowCount p = 1 \<longleftrightarrow>
             0 < sint (screenEvasionCount p) \<or> 0 < sint (elevatedLayerCount p))"
    by auto
  with vals h2 ret show ?thesis by auto
qed

text \<open>
  C7. In a call that returns a count: a process whose name cannot be resolved has no
  record in the returned collection; a process with a positive pid whose name is
  resolved and whose path cannot be resolved has a record there, with an empty path.
\<close>

theorem name_failure_drops_path_failure_keeps:
  assumes "getAllProcesses sys processes_given = result" and "0 \<le> sint (fst result)"
    and "sysctl_proc_list sys = Some proc_list"
  shows "(\<forall>kp \<in> set (visited proc_list).
            fst (getProcessName sys (p_pid kp) (Some []) PROC_PIDPATHINFO_MAXSIZE) \<noteq> BRIDGE_SUCCESS \<longrightarrow>
            \<not> (\<exists>p. Some p \<in> set (returned_records result) \<and> info_pid p = p_pid kp)) \<and>
         (\<forall>kp \<in> set (visited proc_list).
            0 < sint (p_pid kp) \<and>
            fst (getProcessName sys (p_pid kp) (Some []) PROC_PIDPATHINFO_MAXSIZE) = BRIDGE_SUCCESS \<and>
            fst (getProcessPath sys (p_pid kp) (Some []) PROC_PIDPATHINFO_MAXSIZE) \<noteq> BRIDGE_SUCCESS \<longrightarrow>
            (\<exists>p. Some p \<in> set (returned_records result) \<and> info_pid p = p_pid kp \<and>
                 info_path p = []))"
proof -
  from getAllProcesses_success [OF assms(1,2)] assms(3)
  have ret: "returned_records result =
      map (\<lambda>kp. Some (snd (fill_info sys (p_pid kp)))) (filter (survives sys) (visited proc_list))"
    by auto
  have dropped: "\<not> (\<exists>p. Some p \<in> set (returned_records result) \<and> info_pid p = p_pid kp)"
    if "fst (getProcessName sys (p_pid kp) (Some []) PROC_PIDPATHINFO_MAXSIZE) \<noteq> BRIDGE_SUCCESS"
    for kp
  proof
    assume "\<exists>p. Some p \<in> set (returned_records result) \<and> info_pid p = p_pid kp"
    then obtain p where "Some p \<in> set (returned_records result)" and pid: "info_pid p = p_pid kp"
      by blast
    with ret obtain kp' where "survives sys kp'" and p: "p = snd (fill_info sys (p_pid kp'))"
      by auto
    then have "fst (fill_info sys (p_pid kp')) = BRIDGE_SUCCESS" by (simp add: survives_def)
    moreover have "p_pid kp' = p_pid kp" using pid p by (simp add: fill_info_pid)
    ultimately show False using that by (simp add: fill_info_status)
  qed
  have kept: "\<exists>p. Some p \<in> set (returned_records result) \<and> info_pid p = p_pid kp \<and>
      info_path p = []"
    if "kp \<in> set (visited proc_list)" and "0 < sint (p_pid kp)"
      and "fst (getProcessName sys (p_pid kp) (Some []) PROC_PIDPATHINFO_MAXSIZE) = BRIDGE_SUCCESS"
      and "fst (getProcessPath sys (p_pid kp) (Some []) PROC_PIDPATHINFO_MAXSIZE) \<noteq> BRIDGE_SUCCESS"
    for kp
  proof -
    have ok: "fst (fill_info sys (p_pid kp)) = BRIDGE_SUCCESS"
      using that(3) by (simp add: fill_info_status)
    then have "survives sys kp" using that(2) by (simp add: survives_def)
    with that(1) ret
    have "Some (snd (fill_info sys (p_pid kp))) \<in> set (returned_records result)"
      by auto
    moreover have "info_path (snd (fill_info sys (p_pid kp))) = []"
      using fill_info_path [OF ok] getProcessPath_failure [OF that(4,2)]
      by (simp add: c_string_def)
    ultimately show ?thesis using fill_info_pid by blast
  qed
  from dropped kept show ?thesis by blast
qed

theorem name_failure_drops_path_failure_keeps_witness:
  "0 \<le> sint (fst (getAllProcesses example_system True)) \<and>
   sysctl_proc_list example_system = Some example_proc_list \<and>
   visited example_proc_list = example_proc_list \<and>
   \<lparr>p_pid = 99\<rparr> \<in> set example_proc_list \<and>
   fst (getProcessName example_system 99 (Some []) PROC_PIDPATHINFO_MAXSIZE) \<noteq> BRIDGE_SUCCESS \<and>
   \<not> (\<exists>p. Some p \<in> set (returned_records (getAllProcesses example_system True)) \<and>
          info_pid p = 99) \<and>
   \<lparr>p_pid = 42\<rparr> \<in> set example_proc_list \<and> 0 < sint (42 :: pid_t) \<and>
   fst (getProcessName example_system 42 (Some []) PROC_PIDPATHINFO_MAXSIZE) = BRIDGE_SUCCESS \<and>
   fst (getProcessPath example_system 42 (Some []) PROC_PIDPATHINFO_MAXSIZE) \<noteq> BRIDGE_SUCCESS \<and>
   (\<exists>p. Some p \<in> set (returned_records (getAllProcesses example_system True)) \<and>
        info_pid p = 42 \<and> info_path p = [])"
proof -
  have h2: "0 \<le> sint (fst (getAllProcesses example_system True))"
    by (simp add: example_run)
  have h3: "sysctl_proc_list example_system = Some example_proc_list"
    by (simp add: example_system_def)
  have vis: "visited example_proc_list = example_proc_list"
    by (simp add: visited_def proc_count_of_def example_proc_list_def)
  have mem: "\<lparr>p_pid = 99\<rparr> \<in> set example_proc_list" "\<lparr>p_pid = 42\<rparr> \<in> set example_proc_list"
    by (simp_all add: example_proc_list_def)
  have n99: "fst (getProcessName example_system 99 (Some []) PROC_PIDPATHINFO_MAXSIZE) \<noteq> BRIDGE_SUCCESS"
    by (simp add: getProcessName_def example_system_def example_pidinfo_def
        PROC_PIDPATHINFO_MAXSIZE_def BridgeErrorCode_defs)
  have n42: "fst (getProcessName example_system 42 (Some []) PROC_PIDPATHINFO_MAXSIZE) = BRIDGE_SUCCESS"
    by (simp add: getProcessName_def example_system_def example_pidinfo_def
        PROC_PIDPATHINFO_MAXSIZE_def BridgeErrorCode_defs)
  have p42: "fst (getProcessPath example_system 42 (Some []) PROC_PIDPATHINFO_MAXSIZE) \<noteq> BRIDGE_SUCCESS"
    by (simp add: getProcessPath_def example_system_def example_pidpath_def
        PROC_PIDPATHINFO_MAXSIZE_def UINT32_MAX_def BridgeErrorCode_defs)
  have pos: "0 < sint (42 :: pid_t)" by simp
  from name_failure_drops_path_failure_keeps [OF refl h2 h3] vis mem n99 n42 p42 pos
  have "\<not> (\<exists>p. Some p \<in> set (returned_records (getAllProcesses example_system True)) \<and>
          info_pid p = 99)"
    and "\<exists>p. Some p \<in> set (returned_records (getAllProcesses example_system True)) \<and>
        info_pid p = 42 \<and> info_path p = []"
    by (metis kinfo_proc.select_convs(1))+
  with h2 h3 vis mem n99 n42 p42 pos show ?thesis by blast
qed

section \<open>Properties of the file hash\<close>

lemma CC_SHA256_status:
  "fst CC_SHA256_Init = 1" "fst (CC_SHA256_Update c data) = 1" "fst (CC_SHA256_Final c) = 1"
  by (simp_all add: CC_SHA256_Init_def CC_SHA256_Update_def CC_SHA256_Final_def Let_def)

lemma read_loop_Inr: "\<exists>c. read_loop unread sha256Context = Inr c"
proof (induction unread sha256Context rule: read_loop.induct)
  case (1 unread sha256Context)
  show ?case
  proof (cases "unread = []")
    case True
    then show ?thesis by (simp add: read_loop.simps [of "[]"] Let_def)
  next
    case False
    have le: "length (take bufferSize unread) \<le> UINT32_MAX"
      by (simp add: bufferSize_def UINT32_MAX_def)
    have pos: "0 < length (take bufferSize unread)"
      using False by (simp add: bufferSize_def)
    have nle: "\<not> UINT32_MAX < length (take bufferSize unread)"
      using le by (rule leD)
    have nz: "fst (CC_SHA256_Update sha256Context (take bufferSize unread)) \<noteq> 0"
      by (simp add: CC_SHA256_status)
    have "\<exists>c. read_loop (drop bufferSize unread)
            (snd (CC_SHA256_Update sha256Context (take bufferSize unread))) = Inr c"
      by (rule "1.IH" [OF refl refl pos nle refl nz])
    then show ?thesis
      using nle pos nz
      by (subst read_loop.simps) (simp only: Let_def if_True if_False)
  qed
qed

lemma read_loop_digest:
  "read_loop bytes (snd CC_SHA256_Init) = Inr c \<Longrightarrow> snd (CC_SHA256_Final c) = stream_digest bytes"
  by (simp add: stream_digest_def)

lemma length_list_of_regs: "length (list_of_regs r) = 8"
  by (cases r) auto

lemma length_concat_be_bytes: "length (concat (map be_bytes ws)) = 4 * length ws"
  by (induction ws) (simp_all add: be_bytes_def)

lemma length_CC_SHA256_Final: "length (snd (CC_SHA256_Final c)) = 32"
  by (simp add: CC_SHA256_Final_def length_concat_be_bytes length_list_of_regs)

lemma length_stream_digest: "length (stream_digest bytes) = 32"
proof -
  obtain c where "read_loop bytes (snd CC_SHA256_Init) = Inr c"
    using read_loop_Inr by blast
  then show ?thesis
    by (simp add: stream_digest_def length_CC_SHA256_Final)
qed

lemma length_hex_of: "length (hex_of bs) = 2 * length bs"
  by (induction bs) (simp_all add: hex_of_def)

lemma hex_of_Cons:
  "hex_of (b # bs) = hex_digit (unat (drop_bit 4 b)) # hex_digit (unat (b AND 15)) # hex_of bs"
  by (simp add: hex_of_def)

lemma hex_digit_lowercase: "n < 16 \<Longrightarrow> hex_digit n \<in> set ''0123456789abcdef''"
proof -
  assume "n < 16"
  then have "n < length ''0123456789abcdef''" by simp
  then show ?thesis unfolding hex_digit_def by (rule nth_mem)
qed

lemma high_nibble_bound: "unat (drop_bit 4 (b :: byte)) < 16"
proof -
  have "unat (drop_bit 4 b) = unat b div 2 ^ 4"
    by (simp add: drop_bit_eq_div unat_div)
  moreover have "unat b < 2 ^ 8"
    using unsigned_less [of b, where ?'a = nat] by simp
  ultimately show ?thesis by simp
qed

lemma low_nibble_bound: "unat ((b :: byte) AND 15) < 16"
proof -
  have "unat (b AND 15) \<le> unat (15 :: byte)"
    by (rule word_and_le1 [THEN word_le_nat_alt [THEN iffD1]])
  then show ?thesis by simp
qed

lemma hex_of_lowercase: "set (hex_of bs) \<subseteq> set ''0123456789abcdef''"
proof (induction bs)
  case Nil
  show ?case by (simp add: hex_of_def)
next
  case (Cons b bs)
  have "hex_digit (unat (drop_bit 4 b)) \<in> set ''0123456789abcdef''"
    by (rule hex_digit_lowercase [OF high_nibble_bound])
  moreover have "hex_digit (unat (b AND 15)) \<in> set ''0123456789abcdef''"
    by (rule hex_digit_lowercase [OF low_nibble_bound])
  ultimately show ?case using Cons.IH by (simp add: hex_of_Cons)
qed

lemma hex_of_no_terminator: "CHR 0x00 \<notin> set (hex_of bs)"
proof
  assume "CHR 0x00 \<in> set (hex_of bs)"
  with hex_of_lowercase [of bs] have "CHR 0x00 \<in> set ''0123456789abcdef''" by blast
  then show False by simp
qed

lemma hex_loop_status: "fst (hex_loop bs i s) = BRIDGE_SUCCESS"
  by (induction bs arbitrary: i s) (simp_all add: snprintf_02x_def Let_def)

lemma two_updates_take:
  assumes "Suc k < length s"
  shows "take (Suc (Suc k)) (s[k := a, Suc k := b]) = take k s @ [a, b]"
  using assms by (simp add: take_Suc_conv_app_nth nth_list_update)

lemma hex_loop_buffer:
  assumes "i * 2 + 2 * length bs < length s"
  shows "(snd (hex_loop bs i s))[i * 2 + 2 * length bs := CHR 0x00] =
           take (i * 2) s @ hex_of bs @ CHR 0x00 # drop (i * 2 + 2 * length bs + 1) s"
  using assms
proof (induction bs arbitrary: i s)
  case Nil
  then show ?case by (simp add: hex_of_def upd_conv_take_nth_drop)
next
  case (Cons b bs)
  let ?a = "hex_digit (unat (drop_bit 4 b))" and ?b = "hex_digit (unat (b AND 15))"
  let ?s = "s[i * 2 := ?a, i * 2 + 1 := ?b, i * 2 + 2 := CHR 0x00]"
  have step: "hex_loop (b # bs) i s = hex_loop bs (i + 1) ?s"
    by (simp add: snprintf_02x_def Let_def)
  have len: "(i + 1) * 2 + 2 * length bs < length ?s"
    using Cons.prems by simp
  have tk: "take ((i + 1) * 2) ?s = take (i * 2) s @ [?a, ?b]"
  proof -
    have "take ((i + 1) * 2) ?s = take (Suc (Suc (i * 2))) (s[i * 2 := ?a, Suc (i * 2) := ?b])"
      by simp
    also have "\<dots> = take (i * 2) s @ [?a, ?b]"
      using Cons.prems by (intro two_updates_take) simp
    finally show ?thesis .
  qed
  have dr: "drop ((i + 1) * 2 + 2 * length bs + 1) ?s = drop (i * 2 + 2 * length (b # bs) + 1) s"
    by simp
  have idx: "(i + 1) * 2 + 2 * length bs = i * 2 + 2 * length (b # bs)"
    by simp
  from Cons.IH [OF len] show ?case
    unfolding step tk dr idx by (simp add: hex_of_Cons)
qed

text \<open>The three ways a call can end.\<close>

lemma calculateFileSHA256_healthy:
  assumes "p \<noteq> []" and "65 \<le> n" and "fopen p = Some file" and "healthy file"
    and "65 \<le> length buf"
  shows "calculateFileSHA256 fopen (Some p) (Some buf) n =
           (BRIDGE_SUCCESS,
            Some (hex_of (stream_digest (stream_bytes file)) @ CHR 0x00 # drop 65 buf))"
proof -
  obtain c where rl: "read_loop (stream_bytes file) (snd CC_SHA256_Init) = Inr c"
    using read_loop_Inr by blast
  have dg: "snd (CC_SHA256_Final c) = stream_digest (stream_bytes file)"
    using rl by (rule read_loop_digest)
  have len: "length (stream_digest (stream_bytes file)) = 32"
    by (rule length_stream_digest)
  have "0 * 2 + 2 * length (stream_digest (stream_bytes file)) < length buf"
    using len assms(5) by simp
  from hex_loop_buffer [OF this]
  have buf: "(snd (hex_loop (stream_digest (stream_bytes file)) 0 buf))[64 := CHR 0x00] =
      hex_of (stream_digest (stream_bytes file)) @ CHR 0x00 # drop 65 buf"
    using len by simp
  have "\<not> n < 65" using assms(2) by simp
  then show ?thesis
    using assms(1,3,4) rl
    by (simp add: calculateFileSHA256_def healthy_def c_string_def CC_SHA256_status Let_def
        dg len hex_loop_status CC_SHA256_DIGEST_LENGTH_def buf)
qed

lemma calculateFileSHA256_failure_unchanged:
  "fst (calculateFileSHA256 fopen filePath hashString n) \<noteq> BRIDGE_SUCCESS \<Longrightarrow>
   snd (calculateFileSHA256 fopen filePath hashString n) = hashString"
  by (auto simp: calculateFileSHA256_def Let_def hex_loop_status
      split: option.splits sum.splits if_splits)

lemma calculateFileSHA256_success_healthy:
  assumes "fst (calculateFileSHA256 fopen filePath hashString n) = BRIDGE_SUCCESS"
  shows "\<exists>p buf file. filePath = Some p \<and> hashString = Some buf \<and> p \<noteq> [] \<and> 65 \<le> n \<and>
           fopen p = Some file \<and> healthy file"
proof -
  have inl: "read_loop bytes c \<noteq> Inl status" for bytes c status
    using read_loop_Inr [of bytes c] by auto
  from assms show ?thesis
    by (auto simp: calculateFileSHA256_def Let_def healthy_def c_string_def BridgeErrorCode_defs inl
        split: option.splits sum.splits if_splits)
qed

lemma calculateFileSHA256_success:
  assumes "calculateFileSHA256 fopen filePath (Some buf) n = (BRIDGE_SUCCESS, out)"
    and "n \<le> length buf"
  shows "\<exists>file. fopen (c_string filePath) = Some file \<and> healthy file \<and>
           out = Some (hex_of (stream_digest (stream_bytes file)) @ CHR 0x00 # drop 65 buf)"
proof -
  from assms(1) have "fst (calculateFileSHA256 fopen filePath (Some buf) n) = BRIDGE_SUCCESS"
    by simp
  from calculateFileSHA256_success_healthy [OF this]
  obtain p f where fp: "filePath = Some p" and p: "p \<noteq> []" and n: "65 \<le> n"
    and fl: "fopen p = Some f" and h: "healthy f"
    by blast
  have "65 \<le> length buf" using n assms(2) by simp
  with calculateFileSHA256_healthy [of p n fopen f buf] p n fl h assms(1) fp
  show ?thesis by (simp add: c_string_def)
qed

lemma digest_string_written:
  "digest_string (hex_of bs @ CHR 0x00 # rest) = hex_of bs"
  unfolding digest_string_def using hex_of_no_terminator [of bs]
  by (auto simp: takeWhile_tail takeWhile_eq_all_conv)

subsection \<open>The digest of the empty stream\<close>

text \<open>
  The digest is computed by rewriting. Every intermediate word is cut back to 32 bits
  (the identity on a \<open>32 word\<close>), which keeps its numeral small.
\<close>

lemma take_bit_32_word: "take_bit 32 (x :: CC_LONG) = x"
  by (simp add: take_bit_word_eq_self)

lemma rotr_cut: "rotr n x = take_bit 32 (drop_bit n x OR push_bit (32 - n) x)"
  by (simp only: take_bit_32_word rotr_def)

lemma sha_round_cut:
  "sha_round (a, b, c, d, e, f, g, h) k w =
     (let t1 = take_bit 32 (h + Sigma1 e + Ch e f g + k + w);
          t2 = take_bit 32 (Sigma0 a + Maj a b c)
      in (take_bit 32 (t1 + t2), a, b, c, take_bit 32 (d + t1), e, f, g))"
  by (simp only: take_bit_32_word sha_round.simps)

lemma sha256_rounds_step:
  "sha256_rounds r [w0, w1, w2, w3, w4, w5, w6, w7, w8, w9, w10, w11, w12, w13, w14, w15] (k # ks) =
   sha256_rounds (sha_round r k w0)
     [w1, w2, w3, w4, w5, w6, w7, w8, w9, w10, w11, w12, w13, w14, w15,
      take_bit 32 (sigma1 w14 + w9 + sigma0 w1 + w0)] ks"
  by (simp add: next_w_def take_bit_32_word)

lemma replicate_numeral_Cons: "replicate (numeral k) x = x # replicate (pred_numeral k) x"
  by (simp add: numeral_eq_Suc)

lemma sha256_pad_empty: "sha256_pad 0 [] = 0x80 # replicate 63 0"
  by (simp add: sha256_pad_def be_bytes_def replicate_numeral_Cons)

lemma be_words_empty_block:
  "be_words (0x80 # replicate 63 0) = [0x80000000, 0, 0, 0, 0, 0, 0, 0, 0, 0, 0, 0, 0, 0, 0, 0]"
  by (simp add: replicate_numeral_Cons)

lemma sha256_rounds_empty_block:
  "sha256_rounds H256 [0x80000000, 0, 0, 0, 0, 0, 0, 0, 0, 0, 0, 0, 0, 0, 0, 0] K256 =
     (2040978907, 3717492111, 1586299222, 4095722474,
      3600805733, 3382061760, 2232532848, 477227836)"
  by (simp add: K256_def H256_def sigma0_def sigma1_def Sigma0_def Sigma1_def Ch_def Maj_def
      rotr_cut sha_round_cut sha256_rounds_step
      del: sha_round.simps sha256_rounds.simps(2))

lemma sha256_compress_empty_block:
  "sha256_compress H256 (0x80 # replicate 63 0) =
     (0xe3b0c442, 0x98fc1c14, 0x9afbf4c8, 0x996fb924,
      0x27ae41e4, 0x649b934c, 0xa495991b, 0x7852b855)"
  by (simp add: sha256_compress_def be_words_empty_block sha256_rounds_empty_block)
     (simp add: H256_def)

lemma sha256_blocks_empty_block:
  "sha256_blocks H256 (0x80 # replicate 63 0) = (sha256_compress H256 (0x80 # replicate 63 0), [])"
proof -
  have "sha256_blocks H256 (0x80 # replicate 63 0) =
      sha256_blocks (sha256_compress H256 (0x80 # replicate 63 0)) []"
    by (subst sha256_blocks.simps) simp
  also have "\<dots> = (sha256_compress H256 (0x80 # replicate 63 0), [])"
    by (subst sha256_blocks.simps) simp
  finally show ?thesis .
qed

lemma stream_digest_empty:
  "stream_digest [] =
     concat (map be_bytes (list_of_regs (sha256_compress H256 (0x80 # replicate 63 0))))"
proof -
  have "read_loop [] (snd CC_SHA256_Init) = Inr (snd CC_SHA256_Init)"
    by (simp add: read_loop.simps [of "[]"] Let_def)
  then have "stream_digest [] = snd (CC_SHA256_Final (snd CC_SHA256_Init))"
    by (simp add: stream_digest_def)
  also have "\<dots> = concat (map be_bytes (list_of_regs (sha256_compress H256 (0x80 # replicate 63 0))))"
    by (simp add: CC_SHA256_Final_def CC_SHA256_Init_def sha256_pad_empty sha256_blocks_empty_block)
  finally show ?thesis .
qed

lemma hex_of_empty_digest:
  "hex_of (stream_digest []) =
     ''e3b0c44298fc1c149afbf4c8996fb92427ae41e4649b934ca495991b7852b855''"
  by (simp add: stream_digest_empty sha256_compress_empty_block be_bytes_def hex_of_def
      hex_digit_def)

subsection \<open>The digest of the three bytes \<open>abc\<close>\<close>

lemma sha256_pad_abc:
  "sha256_pad 3 [0x61, 0x62, 0x63] =
     [0x61, 0x62, 0x63, 0x80] @ replicate 52 0 @ [0, 0, 0, 0, 0, 0, 0, 0x18]"
  by (simp add: sha256_pad_def be_bytes_def)

lemma be_words_abc_block:
  "be_words ([0x61, 0x62, 0x63, 0x80] @ replicate 52 0 @ [0, 0, 0, 0, 0, 0, 0, 0x18]) =
     [0x61626380, 0, 0, 0, 0, 0, 0, 0, 0, 0, 0, 0, 0, 0, 0, 0x18]"
  by (simp add: replicate_numeral_Cons)

lemma sha256_rounds_abc_block:
  "sha256_rounds H256 [0x61626380, 0, 0, 0, 0, 0, 0, 0, 0, 0, 0, 0, 0, 0, 0, 0x18] K256 =
     (1349398616, 3550093669, 80891244, 3093179625,
      1593118500, 4212265488, 2492278198, 2518632596)"
  by (simp add: K256_def H256_def sigma0_def sigma1_def Sigma0_def Sigma1_def Ch_def Maj_def
      rotr_cut sha_round_cut sha256_rounds_step
      del: sha_round.simps sha256_rounds.simps(2))

lemma sha256_blocks_abc_block:
  "sha256_blocks H256 ([0x61, 0x62, 0x63, 0x80] @ replicate 52 0 @ [0, 0, 0, 0, 0, 0, 0, 0x18]) =
     (sha256_compress H256
        ([0x61, 0x62, 0x63, 0x80] @ replicate 52 0 @ [0, 0, 0, 0, 0, 0, 0, 0x18]), [])"
proof -
  let ?block = "[0x61, 0x62, 0x63, 0x80] @ replicate 52 0 @ [0, 0, 0, 0, 0, 0, 0, 0x18 :: byte]"
  have len: "length ?block = 64" by simp
  have "sha256_blocks H256 ?block = sha256_blocks (sha256_compress H256 ?block) []"
    by (subst sha256_blocks.simps) (simp only: len, simp)
  also have "\<dots> = (sha256_compress H256 ?block, [])"
    by (subst sha256_blocks.simps) simp
  finally show ?thesis .
qed

lemma hex_of_abc_digest:
  "hex_of (stream_digest [0x61, 0x62, 0x63]) =
     ''ba7816bf8f01cfea414140de5dae2223b00361a396177a9cb410ff61f20015ad''"
proof -
  let ?block = "[0x61, 0x62, 0x63, 0x80] @ replicate 52 0 @ [0, 0, 0, 0, 0, 0, 0, 0x18 :: byte]"
  have short: "sha256_blocks H256 [0x61, 0x62, 0x63] = (H256, [0x61, 0x62, 0x63])"
    by (subst sha256_blocks.simps) simp
  have upd: "CC_SHA256_Update (snd CC_SHA256_Init) [0x61, 0x62, 0x63] =
      (1, \<lparr>ctx_count = 3, ctx_hash = H256, ctx_wbuf = [0x61, 0x62, 0x63]\<rparr>)"
    by (simp add: CC_SHA256_Update_def CC_SHA256_Init_def short)
  have "read_loop [0x61, 0x62, 0x63] (snd CC_SHA256_Init) =
      read_loop [] \<lparr>ctx_count = 3, ctx_hash = H256, ctx_wbuf = [0x61, 0x62, 0x63]\<rparr>"
    by (subst read_loop.simps) (simp add: bufferSize_def UINT32_MAX_def upd Let_def)
  also have "\<dots> = Inr \<lparr>ctx_count = 3, ctx_hash = H256, ctx_wbuf = [0x61, 0x62, 0x63]\<rparr>"
    by (simp add: read_loop.simps [of "[]"] Let_def)
  finally have "stream_digest [0x61, 0x62, 0x63] =
      snd (CC_SHA256_Final \<lparr>ctx_count = 3, ctx_hash = H256, ctx_wbuf = [0x61, 0x62, 0x63]\<rparr>)"
    by (simp add: stream_digest_def)
  also have "\<dots> = concat (map be_bytes (list_of_regs (sha256_compress H256 ?block)))"
    by (simp only: CC_SHA256_Final_def CC_SHA256_CTX.simps sha256_pad_abc sha256_blocks_abc_block
        snd_conv fst_conv)
  also have "sha256_compress H256 ?block =
      (0xba7816bf, 0x8f01cfea, 0x414140de, 0x5dae2223,
       0xb00361a3, 0x96177a9c, 0xb410ff61, 0xf20015ad)"
    by (simp only: sha256_compress_def be_words_abc_block sha256_rounds_abc_block)
       (simp add: H256_def)
  finally show ?thesis
    by (simp add: be_bytes_def hex_of_def hex_digit_def)
qed

subsection \<open>The claims about the hash\<close>

text \<open>
  The digest written for the empty file has 64 characters; the string
  \<open>e3b0c44298fc1c149afbf4c8996fb92427ae41e4649b934ca495991b7852b85\<close> has 63, and is not
  what is written.
\<close>

theorem empty_file_digest_counterexample:
  "fst (calculateFileSHA256 example_files (Some ''/tmp/empty'') (Some blank_buffer) 80) =
     BRIDGE_SUCCESS \<and>
   length (digest_string
     (c_string (snd (calculateFileSHA256 example_files (Some ''/tmp/empty'') (Some blank_buffer) 80))))
     = 64 \<and>
   length ''e3b0c44298fc1c149afbf4c8996fb92427ae41e4649b934ca495991b7852b85'' = 63 \<and>
   digest_string
     (c_string (snd (calculateFileSHA256 example_files (Some ''/tmp/empty'') (Some blank_buffer) 80)))
     \<noteq> ''e3b0c44298fc1c149afbf4c8996fb92427ae41e4649b934ca495991b7852b85''"
proof -
  have "calculateFileSHA256 example_files (Some ''/tmp/empty'') (Some blank_buffer) 80 =
      (BRIDGE_SUCCESS,
       Some (hex_of (stream_digest (stream_bytes empty_file)) @ CHR 0x00 # drop 65 blank_buffer))"
    by (rule calculateFileSHA256_healthy)
       (simp_all add: example_files_def healthy_def empty_file_def blank_buffer_def)
  then have "digest_string
      (c_string (snd (calculateFileSHA256 example_files (Some ''/tmp/empty'') (Some blank_buffer) 80)))
      = hex_of (stream_digest [])"
    and "fst (calculateFileSHA256 example_files (Some ''/tmp/empty'') (Some blank_buffer) 80) =
      BRIDGE_SUCCESS"
    by (simp_all add: c_string_def digest_string_written empty_file_def)
  then show ?thesis by (simp add: hex_of_empty_digest)
qed

text \<open>
  C5, as the code has it. Every successful hash computation writes 64 lowercase
  hexadecimal characters followed by the terminator, and leaves the rest of the buffer
  as it was; for a file without bytes the 64 characters are
  \<open>e3b0c44298fc1c149afbf4c8996fb92427ae41e4649b934ca495991b7852b855\<close>.
\<close>

theorem calculateFileSHA256_digest_format:
  assumes "calculateFileSHA256 fopen filePath (Some buf) hashStringSize = (BRIDGE_SUCCESS, out)"
    and "hashStringSize \<le> length buf"
  shows "(\<exists>digest. out = Some (digest @ CHR 0x00 # drop 65 buf) \<and> length digest = 64 \<and>
            set digest \<subseteq> set ''0123456789abcdef'' \<and>
            digest_string (c_string out) = digest) \<and>
         (\<forall>file. fopen (c_string filePath) = Some file \<and> stream_bytes file = [] \<longrightarrow>
            digest_string (c_string out) =
              ''e3b0c44298fc1c149afbf4c8996fb92427ae41e4649b934ca495991b7852b855'')"
proof -
  from calculateFileSHA256_success [OF assms]
  obtain f where fl: "fopen (c_string filePath) = Some f"
    and out: "out = Some (hex_of (stream_digest (stream_bytes f)) @ CHR 0x00 # drop 65 buf)"
    by blast
  let ?digest = "hex_of (stream_digest (stream_bytes f))"
  have "length ?digest = 64"
    by (simp add: length_hex_of length_stream_digest)
  moreover have "set ?digest \<subseteq> set ''0123456789abcdef''"
    by (rule hex_of_lowercase)
  moreover have ds: "digest_string (c_string out) = ?digest"
    by (simp add: out c_string_def digest_string_written)
  ultimately have first: "\<exists>digest. out = Some (digest @ CHR 0x00 # drop 65 buf) \<and>
      length digest = 64 \<and> set digest \<subseteq> set ''0123456789abcdef'' \<and>
      digest_string (c_string out) = digest"
    using out by blast
  have "digest_string (c_string out) =
      ''e3b0c44298fc1c149afbf4c8996fb92427ae41e4649b934ca495991b7852b855''"
    if "fopen (c_string filePath) = Some f'" and "stream_bytes f' = []" for f'
  proof -
    from that(1) fl have "f' = f" by simp
    with that(2) ds show ?thesis by (simp add: hex_of_empty_digest)
  qed
  with first show ?thesis by blast
qed

theorem calculateFileSHA256_digest_format_witness:
  "calculateFileSHA256 example_files (Some ''/tmp/empty'') (Some blank_buffer) 80 =
     (BRIDGE_SUCCESS,
      Some (''e3b0c44298fc1c149afbf4c8996fb92427ae41e4649b934ca495991b7852b855''
              @ CHR 0x00 # replicate 15 (CHR ''?''))) \<and>
   80 \<le> length blank_buffer \<and>
   example_files ''/tmp/empty'' = Some empty_file \<and> stream_bytes empty_file = [] \<and>
   digest_string (c_string (Some (''e3b0c44298fc1c149afbf4c8996fb92427ae41e4649b934ca495991b7852b855''
              @ CHR 0x00 # replicate 15 (CHR ''?'')))) =
     ''e3b0c44298fc1c149afbf4c8996fb92427ae41e4649b934ca495991b7852b855''"
proof -
  have run: "calculateFileSHA256 example_files (Some ''/tmp/empty'') (Some blank_buffer) 80 =
     (BRIDGE_SUCCESS,
      Some (''e3b0c44298fc1c149afbf4c8996fb92427ae41e4649b934ca495991b7852b855''
              @ CHR 0x00 # replicate 15 (CHR ''?'')))"
  proof -
    have "calculateFileSHA256 example_files (Some ''/tmp/empty'') (Some blank_buffer) 80 =
        (BRIDGE_SUCCESS,
         Some (hex_of (stream_digest (stream_bytes empty_file)) @ CHR 0x00 # drop 65 blank_buffer))"
      by (rule calculateFileSHA256_healthy)
         (simp_all add: example_files_def healthy_def empty_file_def blank_buffer_def)
    then show ?thesis
      by (simp add: empty_file_def hex_of_empty_digest blank_buffer_def)
  qed
  have len: "80 \<le> length blank_buffer" by (simp add: blank_buffer_def)
  have fl: "example_files ''/tmp/empty'' = Some empty_file" by (simp add: example_files_def)
  have emp: "stream_bytes empty_file = []" by (simp add: empty_file_def)
  from calculateFileSHA256_digest_format [OF run len] fl emp
  have "digest_string (c_string (Some (''e3b0c44298fc1c149afbf4c8996fb92427ae41e4649b934ca495991b7852b855''
              @ CHR 0x00 # replicate 15 (CHR ''?'')))) =
     ''e3b0c44298fc1c149afbf4c8996fb92427ae41e4649b934ca495991b7852b855''"
    by (simp add: c_string_def)
  with run len fl emp show ?thesis by simp
qed

text \<open>
  C6. Two successful runs of \<open>calculateFileSHA256\<close> over files with the same bytes,
  whatever the file systems, the paths and the buffers, write the same 64 characters.
\<close>

theorem calculateFileSHA256_deterministic:
  assumes "calculateFileSHA256 fopen1 (Some p1) (Some buf1) n1 = (BRIDGE_SUCCESS, out1)"
    and "calculateFileSHA256 fopen2 (Some p2) (Some buf2) n2 = (BRIDGE_SUCCESS, out2)"
    and "fopen1 p1 = Some file1" and "fopen2 p2 = Some file2"
    and "stream_bytes file1 = stream_bytes file2"
    and "n1 \<le> length buf1" and "n2 \<le> length buf2"
  shows "digest_string (c_string out1) = digest_string (c_string out2) \<and>
         length (digest_string (c_string out1)) = 64 \<and>
         take 65 (c_string out1) = take 65 (c_string out2)"
proof -
  from calculateFileSHA256_success [OF assms(1,6)] assms(3)
  have out1: "out1 = Some (hex_of (stream_digest (stream_bytes file1)) @ CHR 0x00 # drop 65 buf1)"
    by (simp add: c_string_def)
  from calculateFileSHA256_success [OF assms(2,7)] assms(4)
  have out2: "out2 = Some (hex_of (stream_digest (stream_bytes file2)) @ CHR 0x00 # drop 65 buf2)"
    by (simp add: c_string_def)
  have len: "length (hex_of (stream_digest (stream_bytes file2))) = 64"
    by (simp add: length_hex_of length_stream_digest)
  show ?thesis
    using len by (simp add: out1 out2 assms(5) c_string_def digest_string_written)
qed

theorem calculateFileSHA256_deterministic_witness:
  "fst (calculateFileSHA256 example_files (Some ''/tmp/abc'') (Some blank_buffer) 80) = BRIDGE_SUCCESS \<and>
   fst (calculateFileSHA256 other_files (Some ''/var/copy-of-abc'') (Some small_buffer) 65) =
     BRIDGE_SUCCESS \<and>
   stream_bytes abc_file = stream_bytes (abc_file\<lparr>ftell_end := 3\<rparr>) \<and>
   80 \<le> length blank_buffer \<and> 65 \<le> length small_buffer \<and>
   digest_string (c_string (snd
     (calculateFileSHA256 example_files (Some ''/tmp/abc'') (Some blank_buffer) 80))) =
   digest_string (c_string (snd
     (calculateFileSHA256 other_files (Some ''/var/copy-of-abc'') (Some small_buffer) 65))) \<and>
   digest_string (c_string (snd
     (calculateFileSHA256 example_files (Some ''/tmp/abc'') (Some blank_buffer) 80))) =
     ''ba7816bf8f01cfea414140de5dae2223b00361a396177a9cb410ff61f20015ad''"
proof -
  let ?r1 = "calculateFileSHA256 example_files (Some ''/tmp/abc'') (Some blank_buffer) 80"
  let ?r2 = "calculateFileSHA256 other_files (Some ''/var/copy-of-abc'') (Some small_buffer) 65"
  have f1: "example_files ''/tmp/abc'' = Some abc_file"
    by (simp add: example_files_def)
  have f2: "other_files ''/var/copy-of-abc'' = Some (abc_file\<lparr>ftell_end := 3\<rparr>)"
    by (simp add: other_files_def)
  have l1: "80 \<le> length blank_buffer" by (simp add: blank_buffer_def)
  have l2: "65 \<le> length small_buffer" by (simp add: small_buffer_def)
  have v1: "?r1 = (BRIDGE_SUCCESS,
      Some (hex_of (stream_digest (stream_bytes abc_file)) @ CHR 0x00 # drop 65 blank_buffer))"
    using l1 by (intro calculateFileSHA256_healthy f1) (simp_all add: healthy_def abc_file_def)
  then have r1: "?r1 = (BRIDGE_SUCCESS, snd ?r1)" by simp
  have "digest_string (c_string (snd ?r1)) = hex_of (stream_digest [0x61, 0x62, 0x63])"
    by (simp add: v1 c_string_def digest_string_written abc_file_def)
  then have d1: "digest_string (c_string (snd ?r1)) =
      ''ba7816bf8f01cfea414140de5dae2223b00361a396177a9cb410ff61f20015ad''"
    by (simp only: hex_of_abc_digest)
  have "?r2 = (BRIDGE_SUCCESS,
      Some (hex_of (stream_digest (stream_bytes (abc_file\<lparr>ftell_end := 3\<rparr>)))
              @ CHR 0x00 # drop 65 small_buffer))"
    using l2 by (intro calculateFileSHA256_healthy f2) (simp_all add: healthy_def abc_file_def)
  then have r2: "?r2 = (BRIDGE_SUCCESS, snd ?r2)" by simp
  have same: "stream_bytes abc_file = stream_bytes (abc_file\<lparr>ftell_end := 3\<rparr>)" by simp
  from calculateFileSHA256_deterministic [OF r1 r2 f1 f2 same l1 l2] r1 r2 same l1 l2 d1
  show ?thesis by (metis fst_conv)
qed

text \<open>
  The empty path, which no file system opens, is refused as an invalid parameter before
  \<open>fopen\<close> is tried.
\<close>

theorem empty_path_counterexample:
  "no_files [] = None \<and>
   calculateFileSHA256 no_files (Some []) (Some small_buffer) 65 =
     (BRIDGE_ERROR_INVALID_PARAMETER, Some small_buffer) \<and>
   BRIDGE_ERROR_INVALID_PARAMETER = - 2 \<and>
   fst (calculateFileSHA256 no_files (Some []) (Some small_buffer) 65) \<noteq> BRIDGE_ERROR_FILE_ACCESS"
  by (simp add: calculateFileSHA256_def no_files_def c_string_def BridgeErrorCode_defs)

text \<open>
  C9, as the code has it. For every path that is not empty and that \<open>fopen\<close> cannot open,
  the hash operation, given a buffer of at least 65 bytes, returns
  \<open>BRIDGE_ERROR_FILE_ACCESS\<close> (-5) and leaves the buffer as it was; and no call that
  returns a status other than \<open>BRIDGE_SUCCESS\<close> changes the buffer.
\<close>

theorem unopenable_path_file_access:
  assumes "p \<noteq> []" and "fopen p = None" and "65 \<le> hashStringSize"
  shows "calculateFileSHA256 fopen (Some p) (Some buf) hashStringSize =
           (BRIDGE_ERROR_FILE_ACCESS, Some buf) \<and>
         BRIDGE_ERROR_FILE_ACCESS = - 5 \<and>
         (fst (calculateFileSHA256 fopen' filePath hashString n) \<noteq> BRIDGE_SUCCESS \<longrightarrow>
            snd (calculateFileSHA256 fopen' filePath hashString n) = hashString)"
proof -
  have "\<not> hashStringSize < 65" using assms(3) by simp
  then have "calculateFileSHA256 fopen (Some p) (Some buf) hashStringSize =
      (BRIDGE_ERROR_FILE_ACCESS, Some buf)"
    using assms(1,2) by (simp add: calculateFileSHA256_def c_string_def)
  then show ?thesis
    using calculateFileSHA256_failure_unchanged [of fopen' filePath hashString n]
    by (simp add: BRIDGE_ERROR_FILE_ACCESS_def)
qed

theorem unopenable_path_file_access_witness:
  "''/nonexistent'' \<noteq> [] \<and> example_files ''/nonexistent'' = None \<and> (65 :: nat) \<le> 80 \<and>
   calculateFileSHA256 example_files (Some ''/nonexistent'') (Some blank_buffer) 80 =
     (- 5, Some blank_buffer) \<and>
   fst (calculateFileSHA256 example_files (Some ''/tmp/abc'') (Some blank_buffer) 64) \<noteq> BRIDGE_SUCCESS \<and>
   snd (calculateFileSHA256 example_files (Some ''/tmp/abc'') (Some blank_buffer) 64) =
     Some blank_buffer"
proof -
  have h1: "''/nonexistent'' \<noteq> []" by simp
  have h2: "example_files ''/nonexistent'' = None" by (simp add: example_files_def)
  have h3: "(65 :: nat) \<le> 80" by simp
  have h4: "fst (calculateFileSHA256 example_files (Some ''/tmp/abc'') (Some blank_buffer) 64)
      \<noteq> BRIDGE_SUCCESS"
    by (simp add: calculateFileSHA256_def BridgeErrorCode_defs)
  from unopenable_path_file_access [of "''/nonexistent''" example_files 80
      blank_buffer example_files "Some ''/tmp/abc''" "Some blank_buffer" 64] h1 h2 h3 h4
  show ?thesis by (simp add: BRIDGE_ERROR_FILE_ACCESS_def)
qed

end
